theory Spec2Isabelle
  imports Main "HOL-Library.AList"
begin

section \<open>JavaScript values used by the engine\<close>

text \<open>
  A JavaScript object whose keys are strings is an association list: the order of first
  insertion is kept, and assigning to an existing key keeps its position
  (\<open>AList.update\<close>).
\<close>

type_synonym 'a dict = "(string \<times> 'a) list"

text \<open>Opaque JSON payloads (event data, the change description of a reducer).\<close>

type_synonym json = string

text \<open>
  The values that travel as errors: what a callback throws, what \<open>event.error\<close> or
  \<open>out.error\<close> holds.
  \<^item> \<open>Undefined\<close>: any falsy value that is not a string (undefined, null, 0, false);
  \<^item> \<open>Str s\<close>: a string (falsy when empty);
  \<^item> \<open>Obj d\<close>: a plain object with the given own properties;
  \<^item> \<open>ErrorObj stack message name\<close>: an Error instance, with its \<open>stack\<close>, \<open>message\<close>
    and \<open>name\<close> (each the empty string when absent);
  \<^item> \<open>Other s\<close>: any other truthy value (a number, an array, an object with its own
    \<open>toString\<close>), given by what \<open>String(...)\<close> makes of it.
\<close>

datatype jsval =
    Undefined
  | Str string
  | Obj "(string \<times> jsval) list"
  | ErrorObj string string string
  | Other string

fun truthy :: "jsval \<Rightarrow> bool" where
  "truthy Undefined = False"
| "truthy (Str s) = (s \<noteq> [])"
| "truthy (Obj d) = True"
| "truthy (ErrorObj s m n) = True"
| "truthy (Other s) = True"

fun get_prop :: "jsval \<Rightarrow> string \<Rightarrow> jsval" where
  "get_prop (Obj d) k = (case map_of d k of Some x \<Rightarrow> x | None \<Rightarrow> Undefined)"
| "get_prop (ErrorObj s m n) k =
     (if k = ''stack'' then Str s
      else if k = ''message'' then Str m
      else if k = ''name'' then Str n
      else Undefined)"
| "get_prop x k = Undefined"

text \<open>\<open>String(x)\<close>; for an Error instance this is \<open>Error.prototype.toString\<close>.\<close>

fun js_String :: "jsval \<Rightarrow> string" where
  "js_String Undefined = ''undefined''"
| "js_String (Str s) = s"
| "js_String (Obj d) = ''[object Object]''"
| "js_String (ErrorObj s m n) = (if m = [] then n else if n = [] then m else n @ '': '' @ m)"
| "js_String (Other s) = s"

subsection \<open>Decimal printing of numbers in template strings\<close>

fun show_nat :: "nat \<Rightarrow> string" where
  "show_nat n =
     (if n < 10 then [''0123456789'' ! n]
      else show_nat (n div 10) @ [''0123456789'' ! (n mod 10)])"

declare show_nat.simps [simp del]

definition show_int :: "int \<Rightarrow> string" where
  "show_int i = (if i < 0 then CHR ''-'' # show_nat (nat (- i)) else show_nat (nat i))"

text \<open>
  Object spread \<open>{...x}\<close>: the own enumerable properties of \<open>x\<close>. A string spreads
  into its characters under their indices, an Error instance has no enumerable property.
\<close>

fun spread :: "jsval \<Rightarrow> jsval dict" where
  "spread (Obj d) = d"
| "spread (Str s) = zip (map show_nat [0..<length s]) (map (\<lambda>c. Str [c]) s)"
| "spread x = []"

subsection \<open>\<open>errorToString\<close>\<close>

text \<open>
  \<open>/\s+/g\<close> replaced by one blank. A string is the list of its code units, and a
  \<open>char\<close> holds a code unit below 256; of these, \<open>\s\<close> matches TAB, LF, VT, FF, CR
  (9 to 13), the blank (32) and the no-break space (160). The white space above 255
  (U+1680, U+2000 to U+200A, U+2028, U+2029, U+202F, U+205F, U+3000, U+FEFF) has no
  \<open>char\<close>, so texts with it are outside of what is modelled.
\<close>

definition is_space :: "char \<Rightarrow> bool" where
  "is_space c =
     (let n = (of_char c :: nat) in (9 \<le> n \<and> n \<le> 13) \<or> n = 32 \<or> n = 160)"

function collapse_ws :: "string \<Rightarrow> string" where
  "collapse_ws [] = []"
| "collapse_ws (c # cs) =
     (if is_space c then CHR '' '' # collapse_ws (dropWhile is_space cs)
      else c # collapse_ws cs)"
  by pat_completeness auto
termination
  by (relation "measure length") (auto simp: length_dropWhile_le le_imp_less_Suc)

text \<open>
  The text of \<open>new Error(msg).stack\<close> depends on the JavaScript engine and on the call
  site, so it is a parameter \<open>stackOf\<close>, applied to the first line \<open>name: message\<close>.
\<close>

definition new_Error :: "(string \<Rightarrow> string) \<Rightarrow> string \<Rightarrow> jsval" where
  "new_Error stackOf msg = ErrorObj (stackOf (''Error: '' @ msg)) msg ''Error''"

definition new_TypeError :: "(string \<Rightarrow> string) \<Rightarrow> string \<Rightarrow> jsval" where
  "new_TypeError stackOf msg = ErrorObj (stackOf (''TypeError: '' @ msg)) msg ''TypeError''"

text \<open>\<open>a || b\<close> on error values.\<close>

definition js_or :: "jsval \<Rightarrow> jsval \<Rightarrow> jsval" where
  "js_or a b = (if truthy a then a else b)"

definition errorToString :: "(string \<Rightarrow> string) \<Rightarrow> jsval \<Rightarrow> string" where
  "errorToString stackOf error =
     (let msg =
        (if truthy error
         then js_or (get_prop error ''stack'')
                (js_or (get_prop error ''message'') (Str (js_String error)))
         else get_prop (new_Error stackOf ''missing error'') ''stack'')
      in collapse_ws (js_String msg))"

section \<open>Events\<close>

text \<open>
  What a reducer returns for its model, once \<open>events\<close> has been taken out: the
  \<open>error\<close> property (\<open>Undefined\<close> when absent) and the description of the changes.
\<close>

record reducer_out =
  out_error :: jsval
  out_changes :: json

text \<open>
  An event record: \<open>v\<close>, \<open>type\<close> (the empty string when missing), \<open>data\<close>, \<open>ts\<close>,
  \<open>result\<close>, \<open>error\<close> (\<open>Undefined\<close> when absent), \<open>failedResult\<close> and \<open>events\<close>.
  A stored sub-event is such a record without \<open>v\<close>.
\<close>

datatype event = Event
  (ev_v: "int option")
  (ev_type: string)
  (ev_data: json)
  (ev_ts: "int option")
  (ev_result: "reducer_out dict option")
  (ev_error: jsval)
  (ev_failedResult: "reducer_out dict option")
  (ev_events: "event list option")

fun set_v :: "int option \<Rightarrow> event \<Rightarrow> event" where
  "set_v x (Event v t d ts r e f es) = Event x t d ts r e f es"

fun set_type :: "string \<Rightarrow> event \<Rightarrow> event" where
  "set_type x (Event v t d ts r e f es) = Event v x d ts r e f es"

fun set_result :: "reducer_out dict option \<Rightarrow> event \<Rightarrow> event" where
  "set_result x (Event v t d ts r e f es) = Event v t d ts x e f es"

fun set_error :: "jsval \<Rightarrow> event \<Rightarrow> event" where
  "set_error x (Event v t d ts r e f es) = Event v t d ts r x f es"

fun set_failedResult :: "reducer_out dict option \<Rightarrow> event \<Rightarrow> event" where
  "set_failedResult x (Event v t d ts r e f es) = Event v t d ts r e x es"

fun set_events :: "event list option \<Rightarrow> event \<Rightarrow> event" where
  "set_events x (Event v t d ts r e f es) = Event v t d ts r e f x"

text \<open>The object \<open>{type, data}\<close> that a dispatch inside the pipeline appends.\<close>

definition sub_event :: "string \<Rightarrow> json \<Rightarrow> event" where
  "sub_event t d = Event None t d None None Undefined None None"

text \<open>The object \<open>{error}\<close> that stands for a preprocessor that threw.\<close>

definition error_object :: "jsval \<Rightarrow> event" where
  "error_object e = Event None [] [] None None e None None"

text \<open>
  \<open>if (x.result) { x.failedResult = x.result; delete x.result }\<close>, which the loop, the
  apply phase and the sub-event loop all do on a failed event.
\<close>

definition move_result :: "event \<Rightarrow> event" where
  "move_result x =
     (case ev_result x of
        Some r \<Rightarrow> set_result None (set_failedResult (Some r) x)
      | None \<Rightarrow> x)"

text \<open>\<open>_subDispatch(event, type, data)\<close>.\<close>

definition ESDB_subDispatch :: "event \<Rightarrow> string \<Rightarrow> json \<Rightarrow> event" where
  "ESDB_subDispatch event t d =
     (let es = (case ev_events event of None \<Rightarrow> [] | Some es \<Rightarrow> es)
      in set_events (Some (es @ [sub_event t d])) event)"

section \<open>Models\<close>

text \<open>
  The callbacks of a model, over a store of type \<open>'s\<close> (the tables of the database).
  \<^item> A preprocessor gets the read-only store and the event object. It answers with the
    contents of that object after the call (it may have changed it in place, also through
    \<open>dispatch\<close>) and with what it returned or threw. Objects it returns as new are taken
    to share nothing with its input.
  \<^item> A reducer gets the read-only store and the event; it is pure.
  \<^item> \<open>applyChanges\<close> and a deriver write to the read-write store. They answer with the
    store as they leave it and with what they threw, if anything; a deriver also with the
    sub-events it dispatched, which is all it does to the event.
\<close>

datatype pp_ret = PThrows jsval | PFalsy | PSame | PNew event

datatype pp_result = PP event pp_ret

datatype out_events = NoEvents | FalsyEvents | NotAnArray | EventsArray "event list"

datatype reducer_ret = RThrows jsval | RFalsy | RModel | ROut reducer_out out_events

type_synonym 's preprocessor_fn = "'s \<Rightarrow> event \<Rightarrow> pp_result"
type_synonym 's reducer_fn = "'s \<Rightarrow> event \<Rightarrow> reducer_ret"
type_synonym 's applyChanges_fn = "reducer_out \<Rightarrow> 's \<Rightarrow> 's \<times> jsval option"
type_synonym 's deriver_fn = "'s \<Rightarrow> event \<Rightarrow> 's \<times> (string \<times> json) list \<times> jsval option"

record 's model =
  name :: string
  preprocessor :: "'s preprocessor_fn option"
  reducer :: "'s reducer_fn option"
  deriver :: "'s deriver_fn option"
  applyChanges :: "'s applyChanges_fn option"
  setWritable :: bool

section \<open>The stores\<close>

datatype sql =
    SAVEPOINT string
  | ROLLBACK_TO_SAVEPOINT string
  | RELEASE_SAVEPOINT string
  | PRAGMA_user_version "int option"

text \<open>
  A database connection with an open write transaction: the tables, \<open>user_version\<close>
  and the stack of savepoints (the newest first), each with the state it would restore.
\<close>

record 's db =
  contents :: 's
  user_version :: int
  savepoints :: "(string \<times> 's \<times> int) list"

text \<open>
  Modelled from the spec: the SQL wrapper (\<open>src/DB/SQLite\<close>) is not part of the sources
  at hand. The spec gives it named, nestable savepoints (\<open>SAVEPOINT x\<close>,
  \<open>RELEASE SAVEPOINT x\<close>, \<open>ROLLBACK TO SAVEPOINT x\<close>) and a persistent integer
  \<open>user_version\<close> that takes part in the transaction. Rolling back to a savepoint restores
  the state at that savepoint and keeps the savepoint; releasing removes it with all newer
  ones; an unknown name and \<open>PRAGMA user_version=undefined\<close> are errors.
\<close>

fun db_run :: "(string \<Rightarrow> string) \<Rightarrow> sql \<Rightarrow> 's db \<Rightarrow> jsval + 's db" where
  "db_run stackOf (SAVEPOINT n) d =
     Inr (d\<lparr>savepoints := (n, contents d, user_version d) # savepoints d\<rparr>)"
| "db_run stackOf (ROLLBACK_TO_SAVEPOINT n) d =
     (case dropWhile (\<lambda>sp. fst sp \<noteq> n) (savepoints d) of
        [] \<Rightarrow> Inl (new_Error stackOf (''no such savepoint: '' @ n))
      | (m, c, u) # rest \<Rightarrow>
          Inr (d\<lparr>contents := c, user_version := u, savepoints := (m, c, u) # rest\<rparr>))"
| "db_run stackOf (RELEASE_SAVEPOINT n) d =
     (case dropWhile (\<lambda>sp. fst sp \<noteq> n) (savepoints d) of
        [] \<Rightarrow> Inl (new_Error stackOf (''no such savepoint: '' @ n))
      | sp # rest \<Rightarrow> Inr (d\<lparr>savepoints := rest\<rparr>))"
| "db_run stackOf (PRAGMA_user_version (Some n)) d = Inr (d\<lparr>user_version := n\<rparr>)"
| "db_run stackOf (PRAGMA_user_version None) d =
     Inl (new_Error stackOf ''near undefined: syntax error'')"

text \<open>The operations on the stores that can fail for reasons outside the engine.\<close>

datatype op = OpRun sql | OpQueueSet | OpQueueGetNext | OpQueueGet | OpGetVersion

text \<open>What the engine does to the outside, in the order in which it does it.\<close>

datatype action =
    Preprocess string event
  | Reduce string event
  | SetWritable string bool
  | ApplyChanges string reducer_out
  | Run sql
  | Derive string event
  | QueueSet event
  | QueueGetNext int bool
  | QueueGet int
  | GetVersion
  | Begin
  | Commit
  | Rollback
  | Close string
  | Wait nat
  | Emit string event
  | Resolve nat event
  | Reject nat event
  | ConsoleError string

section \<open>The engine and its state\<close>

text \<open>
  What the constructor fixes: the model lists, whether the read-only handle \<open>db\<close> is the
  read-write handle \<open>rwDb\<close> itself, and the files of the three handles. Two parameters
  stand for the environment: \<open>stackOf\<close> (see above) and \<open>fault\<close>, which says for each
  operation on a store whether it throws, given how many actions were done before it.
  A third, \<open>latency\<close>, says when the callback that \<open>_reducer\<close> starts for a key settles
  for an event: the number of turns of the job queue that it takes (0 for a reducer
  that throws on the call itself, more for one that is awaited).
\<close>

record 's esdb =
  stackOf :: "string \<Rightarrow> string"
  fault :: "nat \<Rightarrow> op \<Rightarrow> jsval option"
  latency :: "string \<Rightarrow> event \<Rightarrow> nat"
  BE_QUIET :: bool
  db_is_rwDb :: bool
  db_file :: string
  rwDb_file :: string
  queue_file :: string
  store :: "'s model dict"
  rwStore :: "'s model dict"
  reducerNames :: "string list"
  reducerModels :: "'s model dict"
  deriverModels :: "'s model list"
  preprocModels :: "'s model list"
  readWriters :: "'s model list"

definition MAX_RETRY :: nat where
  "MAX_RETRY = 38"

text \<open>
  What changes while the engine runs: the read-write connection, what the read-only
  connection sees when it is another connection (the last committed tables and version),
  the rows of the queue, the waiters with the number of promises made so far, the reads of
  the queue that a sweep of the waiters has started, the observers, the flags of the
  polling loop (\<open>waitingP\<close> says that a run of the loop is under way), and the actions
  done so far.
\<close>

record 's world =
  rwDb :: "'s db"
  roDb :: "'s \<times> int"
  queue :: "(int \<times> event) list"
  waitingFor :: "(int \<times> nat) list"
  maxWaitingFor :: int
  promises :: nat
  deferred :: "int list"
  listeners :: "string \<Rightarrow> (event \<Rightarrow> jsval option) list"
  minVersion :: int
  isPolling :: bool
  reallyStop :: bool
  stopPollingOnError :: bool
  waitingP :: bool
  trace :: "action list"

definition log :: "action \<Rightarrow> 's world \<Rightarrow> 's world" where
  "log a w = w\<lparr>trace := trace w @ [a]\<rparr>"

definition faulty :: "'s esdb \<Rightarrow> 's world \<Rightarrow> op \<Rightarrow> jsval option" where
  "faulty eng w x = fault eng (length (trace w)) x"

text \<open>The tables that preprocessors and reducers read.\<close>

definition ro_store :: "'s esdb \<Rightarrow> 's world \<Rightarrow> 's" where
  "ro_store eng w = (if db_is_rwDb eng then contents (rwDb w) else fst (roDb w))"

text \<open>\<open>getVersion()\<close>: \<open>PRAGMA user_version\<close> on the read-only handle.\<close>

definition ESDB_getVersion :: "'s esdb \<Rightarrow> 's world \<Rightarrow> (jsval + int) \<times> 's world" where
  "ESDB_getVersion eng w =
     (case faulty eng w OpGetVersion of
        Some e \<Rightarrow> (Inl e, log GetVersion w)
      | None \<Rightarrow>
          (Inr (if db_is_rwDb eng then user_version (rwDb w) else snd (roDb w)),
           log GetVersion w))"

text \<open>\<open>rwDb.run(sql)\<close>.\<close>

definition rwDb_run :: "'s esdb \<Rightarrow> sql \<Rightarrow> 's world \<Rightarrow> jsval option \<times> 's world" where
  "rwDb_run eng q w =
     (case faulty eng w (OpRun q) of
        Some e \<Rightarrow> (Some e, log (Run q) w)
      | None \<Rightarrow>
          (case db_run (stackOf eng) q (rwDb w) of
             Inl e \<Rightarrow> (Some e, log (Run q) w)
           | Inr d \<Rightarrow> (None, log (Run q) (w\<lparr>rwDb := d\<rparr>))))"

text \<open>
  Modelled from the spec: \<open>lib/settleAll\<close> is not part of the sources at hand. The spec
  has it run the function on every item, wait until all have settled, and then raise the
  first error if there was one. The calls are taken one after the other, in list order.
\<close>

fun settleAll :: "'a list \<Rightarrow> ('a \<Rightarrow> 'st \<Rightarrow> 'st \<times> jsval option) \<Rightarrow> 'st \<Rightarrow> 'st \<times> jsval option" where
  "settleAll [] fn st = (st, None)"
| "settleAll (x # xs) fn st =
     (let (st1, e1) = fn x st;
          (st2, e2) = settleAll xs fn st1
      in (st2, (case e1 of Some e \<Rightarrow> Some e | None \<Rightarrow> e2)))"

section \<open>The pipeline\<close>

subsection \<open>\<open>_preprocessor\<close>\<close>

text \<open>
  The loop over \<open>preprocModels\<close>. The variable \<open>event\<close> starts as the object passed in
  and is replaced when a preprocessor returns another object. \<open>orig\<close> is \<open>None\<close> as long
  as \<open>event\<close> still is the object passed in, and holds the contents of that object
  afterwards. The answer is the event returned, the contents of the object passed in, and
  the state.
\<close>

fun preprocessor_loop ::
  "'s esdb \<Rightarrow> 's model list \<Rightarrow> event option \<Rightarrow> event \<Rightarrow> 's world \<Rightarrow> event \<times> event \<times> 's world" where
  "preprocessor_loop eng [] orig event w =
     (event, (case orig of None \<Rightarrow> event | Some x \<Rightarrow> x), w)"
| "preprocessor_loop eng (m # ms) orig event w =
     (let v = ev_v event;
          t = ev_type event;
          w1 = log (Preprocess (name m) event) w;
          r = (case preprocessor m of
                 None \<Rightarrow>
                   PP event (PThrows
                     (new_TypeError (stackOf eng) ''model.preprocessor is not a function''))
               | Some f \<Rightarrow> f (ro_store eng w) event)
      in case r of PP event_m ret \<Rightarrow>
        (let same = (case ret of PFalsy \<Rightarrow> True | PSame \<Rightarrow> True | _ \<Rightarrow> False);
             newEvent0 =
               (case ret of
                  PThrows e \<Rightarrow> error_object e
                | PFalsy \<Rightarrow> event_m
                | PSame \<Rightarrow> event_m
                | PNew e \<Rightarrow> e);
             newEvent =
               (if \<not> truthy (ev_error newEvent0) then
                  (if ev_v newEvent0 \<noteq> v then
                     set_error
                       (new_Error (stackOf eng) ''preprocessor must retain event version'')
                       newEvent0
                   else if ev_type newEvent0 = [] then
                     set_error
                       (new_Error (stackOf eng) ''preprocessor must retain event type'')
                       newEvent0
                   else newEvent0)
                else newEvent0);
             event1 = (if same then newEvent else event_m);
             orig1 = (case orig of None \<Rightarrow> event1 | Some x \<Rightarrow> x)
         in if truthy (ev_error newEvent) then
              (set_error
                 (Obj [(''_preprocess_'' @ name m,
                        Str (errorToString (stackOf eng) (ev_error newEvent)))])
                 (set_type t (set_v v event1)),
               orig1, w1)
            else if same then preprocessor_loop eng ms orig newEvent w1
            else preprocessor_loop eng ms (Some orig1) newEvent w1))"

definition ESDB_preprocessor :: "'s esdb \<Rightarrow> event \<Rightarrow> 's world \<Rightarrow> event \<times> event \<times> 's world" where
  "ESDB_preprocessor eng event w = preprocessor_loop eng (preprocModels eng) None event w"

subsection \<open>\<open>_reducer\<close>\<close>

text \<open>
  \<open>model.reducer(model, event)\<close> for one key, inside the \<open>try\<close>: a missing model or a
  model without reducer is a TypeError there.
\<close>

definition call_reducer :: "'s esdb \<Rightarrow> 's \<Rightarrow> event \<Rightarrow> string \<Rightarrow> reducer_ret" where
  "call_reducer eng st event key =
     (case map_of (reducerModels eng) key of
        None \<Rightarrow>
          RThrows (new_TypeError (stackOf eng)
            ''Cannot read properties of undefined (reading reducer)'')
      | Some model \<Rightarrow>
          (case reducer model of
             None \<Rightarrow> RThrows (new_TypeError (stackOf eng) ''model.reducer is not a function'')
           | Some f \<Rightarrow> f st event))"

text \<open>
  What one reducer leaves behind: the entry \<open>result[key]\<close>, if any, and the sub-events
  it asks for.
\<close>

definition settle_reducer :: "(string \<Rightarrow> string) \<Rightarrow> reducer_ret \<Rightarrow> reducer_out option \<times> event list" where
  "settle_reducer stk ret =
     (let out =
        (case ret of
           RThrows error \<Rightarrow>
             ROut \<lparr>out_error = Str (errorToString stk error), out_changes = []\<rparr> NoEvents
         | r \<Rightarrow> r)
      in case out of
           RFalsy \<Rightarrow> (None, [])
         | RModel \<Rightarrow> (None, [])
         | RThrows error \<Rightarrow> (None, [])
         | ROut r evs \<Rightarrow>
             (case evs of
                EventsArray es \<Rightarrow> (Some r, es)
              | NotAnArray \<Rightarrow>
                  (Some \<lparr>out_error = Str ''.events is not an array'', out_changes = []\<rparr>, [])
              | FalsyEvents \<Rightarrow> (Some r, [])
              | NoEvents \<Rightarrow> (Some r, [])))"

text \<open>
  The reducers are all called with the event as it is when \<open>_reducer\<close> starts, in the
  order of \<open>reducerNames\<close>. Each callback of \<open>Promise.all\<close> assigns \<open>result[key]\<close> and
  pushes the sub-events when its reducer has settled, so the answers are taken in the
  order in which they settle: by \<open>latency\<close>, and in the order of the calls among those
  that settle in the same turn.
\<close>

definition settle_order :: "'s esdb \<Rightarrow> event \<Rightarrow> string list" where
  "settle_order eng event = sort_key (\<lambda>key. latency eng key event) (reducerNames eng)"

text \<open>The answers of the reducers of the given keys, taken in the order of the list.\<close>

fun run_reducers ::
  "'s esdb \<Rightarrow> 's \<Rightarrow> event \<Rightarrow> string list \<Rightarrow> reducer_out dict \<Rightarrow> event list
     \<Rightarrow> reducer_out dict \<times> event list" where
  "run_reducers eng st event [] result pushed = (result, pushed)"
| "run_reducers eng st event (key # keys) result pushed =
     (let (r, es) = settle_reducer (stackOf eng) (call_reducer eng st event key)
      in run_reducers eng st event keys
           (case r of None \<Rightarrow> result | Some out \<Rightarrow> AList.update key out result)
           (pushed @ es))"

definition has_reducer :: "'s esdb \<Rightarrow> string \<Rightarrow> bool" where
  "has_reducer eng key =
     (case map_of (reducerModels eng) key of
        None \<Rightarrow> False
      | Some model \<Rightarrow> reducer model \<noteq> None)"

definition reducer_failed :: "reducer_out dict \<Rightarrow> string \<Rightarrow> bool" where
  "reducer_failed result n =
     (case map_of result n of None \<Rightarrow> False | Some r \<Rightarrow> truthy (out_error r))"

text \<open>The key \<open>`reduce_${name}`\<close>.\<close>

definition reduce_key :: "string \<Rightarrow> string" where
  "reduce_key n = ''reduce_'' @ n"

definition reduce_errors :: "string list \<Rightarrow> reducer_out dict \<Rightarrow> jsval dict" where
  "reduce_errors names result =
     fold (\<lambda>name error.
             (case map_of result name of
                None \<Rightarrow> error
              | Some r \<Rightarrow>
                  if truthy (out_error r)
                  then AList.update (reduce_key name) (out_error r) error
                  else error))
          names []"

text \<open>
  The answer is the event returned, the contents of the event object passed in (its
  \<open>events\<close> array, when it has one, is the array the reducers' sub-events are pushed to),
  and the state.
\<close>

definition ESDB_reducer :: "'s esdb \<Rightarrow> event \<Rightarrow> 's world \<Rightarrow> event \<times> event \<times> 's world" where
  "ESDB_reducer eng event w =
     (let w1 = w\<lparr>trace := trace w @
                 map (\<lambda>key. Reduce key event) (filter (has_reducer eng) (reducerNames eng))\<rparr>;
          (result, pushed) =
            run_reducers eng (ro_store eng w) event (settle_order eng event) [] [];
          events = (case ev_events event of None \<Rightarrow> [] | Some es \<Rightarrow> es) @ pushed;
          event1 = (case ev_events event of
                      None \<Rightarrow> event
                    | Some es \<Rightarrow> set_events (Some events) event)
      in if list_ex (reducer_failed result) (reducerNames eng) then
           (set_error (Obj (reduce_errors (reducerNames eng) result)) event1, event1, w1)
         else
           (let resultEvent = set_result (Some result) event1
            in (if events \<noteq> [] then set_events (Some events) resultEvent else resultEvent,
                event1, w1)))"

subsection \<open>\<open>_applyEvent\<close>\<close>

definition set_all_writable :: "'s esdb \<Rightarrow> bool \<Rightarrow> 's world \<Rightarrow> 's world" where
  "set_all_writable eng b w =
     w\<lparr>trace := trace w @ map (\<lambda>model. SetWritable (name model) b) (readWriters eng)\<rparr>"

text \<open>\<open>r && rwStore[name].applyChanges(r)\<close> for one entry of \<open>result\<close>.\<close>

definition apply_entry :: "'s esdb \<Rightarrow> string \<times> reducer_out \<Rightarrow> 's world \<Rightarrow> 's world \<times> jsval option" where
  "apply_entry eng entry w =
     (case map_of (rwStore eng) (fst entry) of
        None \<Rightarrow>
          (w, Some (new_TypeError (stackOf eng)
                 ''Cannot read properties of undefined (reading applyChanges)''))
      | Some model \<Rightarrow>
          (case applyChanges model of
             None \<Rightarrow>
               (w, Some (new_TypeError (stackOf eng)
                      ''rwStore[name].applyChanges is not a function''))
           | Some f \<Rightarrow>
               (let (c, e) = f (snd entry) (contents (rwDb w))
                in (log (ApplyChanges (fst entry) (snd entry))
                      (w\<lparr>rwDb := (rwDb w)\<lparr>contents := c\<rparr>\<rparr>), e))))"

text \<open>
  One deriver, on the event and the state as the derivers before it left them; the
  sub-events it dispatches are appended through \<open>_subDispatch\<close>.
\<close>

definition derive_one :: "'s esdb \<Rightarrow> 's model \<Rightarrow> event \<times> 's world \<Rightarrow> (event \<times> 's world) \<times> jsval option" where
  "derive_one eng model st =
     (case st of (event, w) \<Rightarrow>
        (case deriver model of
           None \<Rightarrow>
             ((event, w),
              Some (new_TypeError (stackOf eng) ''model.deriver is not a function''))
         | Some f \<Rightarrow>
             (case f (contents (rwDb w)) event of (c, ds, e) \<Rightarrow>
                ((fold (\<lambda>d ev. ESDB_subDispatch ev (fst d) (snd d)) ds event,
                  log (Derive (name model) event) (w\<lparr>rwDb := (rwDb w)\<lparr>contents := c\<rparr>\<rparr>)),
                 e))))"

text \<open>
  The first step of the \<open>try\<close>, after the models are made writable:
  \<open>if (result && !isEmpty(result)) await settleAll(Object.entries(result), ...)\<close>.
\<close>

definition apply_changes :: "'s esdb \<Rightarrow> event \<Rightarrow> 's world \<Rightarrow> 's world \<times> jsval option" where
  "apply_changes eng event w =
     (case ev_result event of
        None \<Rightarrow> (w, None)
      | Some r \<Rightarrow> if r = [] then (w, None) else settleAll r (apply_entry eng) w)"

text \<open>
  The body of the \<open>try\<close>: the event and the state as it leaves them, and the phase with
  the error when it throws.
\<close>

definition apply_try ::
  "'s esdb \<Rightarrow> event \<Rightarrow> bool \<Rightarrow> 's world \<Rightarrow> (event \<times> 's world) \<times> (string \<times> jsval) option" where
  "apply_try eng event updateVersion w =
     (case apply_changes eng event (set_all_writable eng True w) of
        (w2, Some e) \<Rightarrow> ((event, w2), Some (''apply'', e))
      | (w2, None) \<Rightarrow>
          (case (if updateVersion then rwDb_run eng (PRAGMA_user_version (ev_v event)) w2
                 else (None, w2)) of
             (Some e, w3) \<Rightarrow> ((event, w3), Some (''version'', e))
           | (None, w3) \<Rightarrow>
               (if \<not> truthy (ev_error event) \<and> deriverModels eng \<noteq> [] then
                  (case settleAll (deriverModels eng) (derive_one eng) (event, w3) of
                     (st4, e4) \<Rightarrow>
                       (st4, (case e4 of
                                Some e \<Rightarrow> Some (''derive'', e)
                              | None \<Rightarrow> None)))
                else ((event, w3), None))))"

text \<open>
  The \<open>catch\<close>. The pipeline enters the apply phase only with an event that has no
  error, so \<open>event.error\<close> is the fresh \<open>{}\<close> here; an entry is added to an error that is
  a plain object, and any other error value is left as it is.
\<close>

definition apply_catch :: "(string \<Rightarrow> string) \<Rightarrow> string \<Rightarrow> jsval \<Rightarrow> event \<Rightarrow> event" where
  "apply_catch stk phase error event =
     (let event1 = move_result event;
          err = (if \<not> truthy (ev_error event1) then Obj [] else ev_error event1)
      in set_error
           (case err of
              Obj d \<Rightarrow> Obj (AList.update (''_apply-'' @ phase) (Str (errorToString stk error)) d)
            | x \<Rightarrow> x)
           event1)"

definition ESDB_applyEvent :: "'s esdb \<Rightarrow> event \<Rightarrow> bool \<Rightarrow> 's world \<Rightarrow> event \<times> 's world" where
  "ESDB_applyEvent eng event updateVersion w =
     (case apply_try eng event updateVersion w of
        ((event1, w1), thrown) \<Rightarrow>
          ((case thrown of
              None \<Rightarrow> event1
            | Some (phase, error) \<Rightarrow> apply_catch (stackOf eng) phase error event1),
           set_all_writable eng False w1))"

subsection \<open>\<open>_handleEvent\<close>\<close>

text \<open>
  The event object passed to \<open>_reducer\<close> and the event that \<open>_reducer\<close> returns share the
  \<open>events\<close> array when the former has one: what the derivers and the sub-event loop do
  to that array shows in both.
\<close>

definition sync_events :: "event \<Rightarrow> event \<Rightarrow> event" where
  "sync_events orig event =
     (case ev_events orig of None \<Rightarrow> orig | Some es \<Rightarrow> set_events (ev_events event) orig)"

text \<open>
  \<open>ESDB_handleEvent\<close> answers with the event returned, the contents of the object
  \<open>origEvent\<close> afterwards, and the state. \<open>handle_subevents\<close> is the \<open>for\<close> loop over
  \<open>event.events\<close>, from index \<open>i\<close> on.
\<close>

function ESDB_handleEvent ::
    "'s esdb \<Rightarrow> event \<Rightarrow> nat \<Rightarrow> 's world \<Rightarrow> event \<times> event \<times> 's world"
  and handle_subevents ::
    "'s esdb \<Rightarrow> nat \<Rightarrow> nat \<Rightarrow> event \<Rightarrow> 's world \<Rightarrow> event \<times> 's world" where
  "ESDB_handleEvent eng origEvent depth w =
     (if depth > 100 then
        (set_error
           (Obj (AList.update ''_handle'' (Str ''events recursing too deep'')
                   (spread (ev_error origEvent))))
           origEvent,
         origEvent, w)
      else
        (case ESDB_preprocessor eng origEvent w of (event1, orig1, w1) \<Rightarrow>
           if truthy (ev_error event1) then (event1, orig1, w1)
           else
             (case ESDB_reducer eng orig1 w1 of (event2, orig2, w2) \<Rightarrow>
                if truthy (ev_error event2) then (event2, orig2, w2)
                else
                  (case ESDB_applyEvent eng event2 (depth = 0) w2 of (event3, w3) \<Rightarrow>
                     if truthy (ev_error event3) then (event3, sync_events orig2 event3, w3)
                     else
                       (case ev_events event3 of
                          None \<Rightarrow> (event3, sync_events orig2 event3, w3)
                        | Some es \<Rightarrow>
                            (case handle_subevents eng depth 0 event3 w3 of (event4, w4) \<Rightarrow>
                               (event4, sync_events orig2 event4, w4)))))))"
| "handle_subevents eng depth i event w =
     (case ev_events event of
        None \<Rightarrow> (event, w)
      | Some es \<Rightarrow>
          if i < length es then
            (case ESDB_handleEvent eng (set_v (ev_v event) (es ! i)) (depth + 1) w of
               (doneEvent0, orig, w1) \<Rightarrow>
                 (let doneEvent = set_v None doneEvent0
                  in if truthy (ev_error doneEvent) then
                       (set_error
                          (Obj [(''_handle'', Str (''subevent '' @ show_nat i @ '' failed''))])
                          (set_events (Some (es[i := move_result doneEvent])) event),
                        w1)
                     else
                       handle_subevents eng depth (i + 1)
                         (set_events (Some (es[i := doneEvent])) event) w1))
          else (event, w))"
  by pat_completeness auto
termination
proof (relation "measures
    [\<lambda>x. case x of
            Inl (eng, origEvent, depth, w) \<Rightarrow> (if depth > 100 then 0 else 2 * (101 - depth) + 2)
          | Inr (eng, depth, i, event, w) \<Rightarrow> (if depth \<ge> 100 then 1 else 2 * (101 - depth) + 1),
     \<lambda>x. case x of
            Inl (eng, origEvent, depth, w) \<Rightarrow> 0
          | Inr (eng, depth, i, event, w) \<Rightarrow>
              (case ev_events event of None \<Rightarrow> 0 | Some es \<Rightarrow> length es - i)]",
    goal_cases)
  case 1
  show ?case by simp
next
  case 2
  then show ?case by auto
next
  case 3
  then show ?case by auto
next
  case (4 eng depth i event w es x y z u)
  then show ?case by (cases event) auto
qed

declare ESDB_handleEvent.simps [simp del] handle_subevents.simps [simp del]

text \<open>
  The sub-event loop as the specification words it: the sub-events are taken one after
  the other, in order; each is handled one level deeper with the \<open>v\<close> of the parent, and
  stored without \<open>v\<close>; the first one that ends in error stops the loop. The answer is the
  list of sub-event records afterwards, the index of the failed sub-event if there is
  one, and the state.
\<close>

fun process_subevents ::
  "'s esdb \<Rightarrow> nat \<Rightarrow> int option \<Rightarrow> event list \<Rightarrow> 's world
     \<Rightarrow> event list \<times> nat option \<times> 's world" where
  "process_subevents eng depth v [] w = ([], None, w)"
| "process_subevents eng depth v (subEvent # rest) w =
     (case ESDB_handleEvent eng (set_v v subEvent) (depth + 1) w of
        (done0, orig, w1) \<Rightarrow>
          (let doneEvent = set_v None done0
           in if truthy (ev_error doneEvent) then (move_result doneEvent # rest, Some 0, w1)
              else
                (case process_subevents eng depth v rest w1 of
                   (records, failed, w2) \<Rightarrow>
                     (doneEvent # records, map_option Suc failed, w2))))"

section \<open>The queue\<close>

text \<open>
  Modelled from the spec: the event queue (\<open>src/EventQueue\<close>) is not part of the sources at
  hand. The spec gives it \<open>add\<close> (appends with the next \<open>v\<close>, one more than the highest;
  the type must be a non-empty string), \<open>get\<close> (the row with that \<open>v\<close>), \<open>set\<close> (upserts
  the row by \<open>v\<close>; the engine uses what it resolves to as the stored event) and \<open>getNext\<close>
  (the row with the least \<open>v\<close> above the given one; without one it answers null when told
  not to block and suspends otherwise). The rows are kept under their \<open>v\<close>.
\<close>

datatype next_event = Next event | NoNext | Suspended

definition queue_latestVersion :: "(int \<times> event) list \<Rightarrow> int" where
  "queue_latestVersion q = fold (\<lambda>row m. max (fst row) m) q 0"

definition queue_add ::
  "'s esdb \<Rightarrow> string \<Rightarrow> json \<Rightarrow> int option \<Rightarrow> 's world \<Rightarrow> (jsval + event) \<times> 's world" where
  "queue_add eng t d ts w =
     (if t = [] then (Inl (new_Error (stackOf eng) ''type should be a non-empty string''), w)
      else
        (let v = queue_latestVersion (queue w) + 1;
             event = Event (Some v) t d ts None Undefined None None
         in (Inr event, w\<lparr>queue := AList.update v event (queue w)\<rparr>)))"

definition queue_get :: "'s esdb \<Rightarrow> int \<Rightarrow> 's world \<Rightarrow> (jsval + event option) \<times> 's world" where
  "queue_get eng v w =
     (case faulty eng w OpQueueGet of
        Some e \<Rightarrow> (Inl e, log (QueueGet v) w)
      | None \<Rightarrow> (Inr (map_of (queue w) v), log (QueueGet v) w))"

definition queue_set :: "'s esdb \<Rightarrow> event \<Rightarrow> 's world \<Rightarrow> (jsval + event) \<times> 's world" where
  "queue_set eng event w =
     (case faulty eng w OpQueueSet of
        Some e \<Rightarrow> (Inl e, log (QueueSet event) w)
      | None \<Rightarrow>
          (case ev_v event of
             None \<Rightarrow> (Inl (new_Error (stackOf eng) ''cannot store an event without v''),
                       log (QueueSet event) w)
           | Some v \<Rightarrow>
               (Inr event, log (QueueSet event) (w\<lparr>queue := AList.update v event (queue w)\<rparr>))))"

definition next_row :: "int \<Rightarrow> (int \<times> event) list \<Rightarrow> (int \<times> event) option" where
  "next_row afterV q =
     fold (\<lambda>row best.
             if fst row > afterV
                \<and> (case best of None \<Rightarrow> True | Some b \<Rightarrow> fst row < fst b)
             then Some row else best)
          q None"

definition queue_getNext ::
  "'s esdb \<Rightarrow> int \<Rightarrow> bool \<Rightarrow> 's world \<Rightarrow> (jsval + next_event) \<times> 's world" where
  "queue_getNext eng afterV noBlock w =
     (case faulty eng w OpQueueGetNext of
        Some e \<Rightarrow> (Inl e, log (QueueGetNext afterV noBlock) w)
      | None \<Rightarrow>
          (Inr (case next_row afterV (queue w) of
                  Some row \<Rightarrow> Next (snd row)
                | None \<Rightarrow> if noBlock then NoNext else Suspended),
           log (QueueGetNext afterV noBlock) w))"

section \<open>Waiters and observers\<close>

text \<open>
  Modelled from the spec: \<open>emit\<close> is Node's \<open>EventEmitter\<close>, outside the repository. It
  calls the listeners of the name in order and passes on what the first failing one
  throws; \<open>emit('error', ...)\<close> without a listener throws.
\<close>

fun run_listeners :: "(event \<Rightarrow> jsval option) list \<Rightarrow> event \<Rightarrow> jsval option" where
  "run_listeners [] event = None"
| "run_listeners (l # ls) event =
     (case l event of Some e \<Rightarrow> Some e | None \<Rightarrow> run_listeners ls event)"

definition emit :: "'s esdb \<Rightarrow> string \<Rightarrow> event \<Rightarrow> 's world \<Rightarrow> jsval option \<times> 's world" where
  "emit eng n event w =
     (if n = ''error'' \<and> listeners w n = [] then
        (Some (new_Error (stackOf eng) ''Unhandled error.''), log (Emit n event) w)
      else (run_listeners (listeners w n) event, log (Emit n event) w))"

definition listenerCount :: "'s world \<Rightarrow> string \<Rightarrow> nat" where
  "listenerCount w n = length (listeners w n)"

text \<open>
  \<open>startPolling(wantVersion)\<close>, up to the start of the loop: \<open>waitingP\<close> is set, and the
  loop itself runs later.
\<close>

definition ESDB_startPolling :: "int \<Rightarrow> 's world \<Rightarrow> 's world" where
  "ESDB_startPolling wantVersion w =
     (let w1 =
        (if wantVersion \<noteq> 0 then
           (if wantVersion > minVersion w then w\<lparr>minVersion := wantVersion\<rparr> else w)
         else if \<not> isPolling w then w\<lparr>isPolling := True\<rparr>
         else w)
      in if \<not> waitingP w1 then w1\<lparr>waitingP := True\<rparr> else w1)"

text \<open>
  What the promise of an \<open>async\<close> call comes to: fulfilled with nothing or with an event,
  rejected with an event or with an error, or the promise of a waiter, still pending.
\<close>

datatype settled =
    FulfilledUndefined
  | Fulfilled event
  | RejectedWith event
  | RejectedError jsval
  | Pending nat

definition ESDB_handledVersion :: "'s esdb \<Rightarrow> int \<Rightarrow> 's world \<Rightarrow> settled \<times> 's world" where
  "ESDB_handledVersion eng v w =
     (if v = 0 then (FulfilledUndefined, w)
      else
        (case ESDB_getVersion eng w of
           (Inl e, w1) \<Rightarrow> (RejectedError e, w1)
         | (Inr version, w1) \<Rightarrow>
             if v \<le> version then
               (case queue_get eng v w1 of
                  (Inl e, w2) \<Rightarrow> (RejectedError e, w2)
                | (Inr None, w2) \<Rightarrow>
                    (RejectedError (new_TypeError (stackOf eng)
                       ''Cannot read properties of undefined (reading error)''), w2)
                | (Inr (Some event), w2) \<Rightarrow>
                    if truthy (ev_error event) then (RejectedWith event, w2)
                    else (Fulfilled event, w2))
             else
               (case map_of (waitingFor w1) v of
                  Some p \<Rightarrow> (Pending p, w1)
                | None \<Rightarrow>
                    (let w2 = (if v > maxWaitingFor w1 then w1\<lparr>maxWaitingFor := v\<rparr> else w1);
                         p = promises w2;
                         w3 = w2\<lparr>waitingFor := AList.update v p (waitingFor w2),
                                 promises := p + 1\<rparr>
                     in (Pending p, ESDB_startPolling v w3)))))"

definition ESDB_dispatch ::
  "'s esdb \<Rightarrow> string \<Rightarrow> json \<Rightarrow> int option \<Rightarrow> 's world \<Rightarrow> settled \<times> 's world" where
  "ESDB_dispatch eng t d ts w =
     (case queue_add eng t d ts w of
        (Inl e, w1) \<Rightarrow> (RejectedError e, w1)
      | (Inr event, w1) \<Rightarrow>
          (case ev_v event of
             None \<Rightarrow> (FulfilledUndefined, w1)
           | Some v \<Rightarrow> ESDB_handledVersion eng v w1))"

text \<open>
  The sweep of \<open>_triggerEventListeners\<close> over \<open>Object.keys(this._waitingFor)\<close>, which
  lists the versions in ascending order: each waiter at or below the version of the event
  is deleted, and a read of its row is started whose answer will be passed to
  \<open>_triggerEventListeners\<close> (see \<open>run_deferred\<close>).
\<close>

fun sweep :: "'s esdb \<Rightarrow> int \<Rightarrow> int list \<Rightarrow> 's world \<Rightarrow> 's world" where
  "sweep eng ev [] w = w"
| "sweep eng ev (v # vs) w =
     (if v > ev then sweep eng ev vs w
      else
        sweep eng ev vs
          ((log (QueueGet v) w)\<lparr>deferred := deferred w @ [v],
                                waitingFor := AList.delete v (waitingFor w)\<rparr>))"

definition dq :: string where
  "dq = [CHR 0x22]"

text \<open>
  The first half of \<open>_triggerEventListeners\<close>: the waiter \<open>o\<close> of the version of the
  event, taken out of \<open>_waitingFor\<close>, and the sweep.
\<close>

definition take_waiters :: "'s esdb \<Rightarrow> event \<Rightarrow> 's world \<Rightarrow> nat option \<times> 's world" where
  "take_waiters eng event w =
     (let waiter = (case ev_v event of None \<Rightarrow> None | Some v \<Rightarrow> map_of (waitingFor w) v);
          w1 = (case (waiter, ev_v event) of
                  (Some p, Some v) \<Rightarrow> w\<lparr>waitingFor := AList.delete v (waitingFor w)\<rparr>
                | _ \<Rightarrow> w);
          w2 = (case ev_v event of
                  None \<Rightarrow> w1
                | Some v \<Rightarrow>
                    if v \<ge> maxWaitingFor w1
                    then sweep eng v (sort (map fst (waitingFor w1))) w1
                    else w1)
      in (waiter, w2))"

text \<open>\<open>try { this.emit(n, event) } catch (error) { console.error(...) }\<close>.\<close>

definition emit_guarded :: "'s esdb \<Rightarrow> string \<Rightarrow> event \<Rightarrow> 's world \<Rightarrow> 's world" where
  "emit_guarded eng n event w =
     (case emit eng n event w of
        (Some error, w1) \<Rightarrow>
          log (ConsoleError (''!!! '' @ dq @ n @ dq @ '' event handler threw, ignoring'')) w1
      | (None, w1) \<Rightarrow> w1)"

definition ESDB_triggerEventListeners :: "'s esdb \<Rightarrow> event \<Rightarrow> 's world \<Rightarrow> 's world" where
  "ESDB_triggerEventListeners eng event w =
     (case take_waiters eng event w of
        (waiter, w2) \<Rightarrow>
          if truthy (ev_error event) then
            (if listenerCount w2 ''error'' \<noteq> 0 then emit_guarded eng ''error'' event w2
             else w2)
          else
            (let w3 = emit_guarded eng ''result'' event w2
             in case waiter of Some p \<Rightarrow> log (Resolve p event) w3 | None \<Rightarrow> w3))"

text \<open>
  The answer to the oldest read that a sweep started: the row goes to
  \<open>_triggerEventListeners\<close>; without a row, or when the read fails, the promise of the
  read is rejected and nothing else happens.
\<close>

definition run_deferred :: "'s esdb \<Rightarrow> 's world \<Rightarrow> 's world" where
  "run_deferred eng w =
     (case deferred w of
        [] \<Rightarrow> w
      | v # vs \<Rightarrow>
          (let w1 = w\<lparr>deferred := vs\<rparr>
           in if faulty eng w1 OpQueueGet \<noteq> None then w1
              else
                (case map_of (queue w1) v of
                   None \<Rightarrow> w1
                 | Some event \<Rightarrow> ESDB_triggerEventListeners eng event w1)))"

section \<open>The polling loop\<close>

text \<open>
  Modelled from the spec: \<open>withTransaction(fn)\<close> belongs to the SQL wrapper, which is not
  part of the sources at hand. The spec has it begin a transaction, run \<open>fn\<close>, and commit,
  or roll back when \<open>fn\<close> throws. A commit makes the state visible to the read-only
  connection; a rollback restores the tables, the version and the savepoints of the
  beginning. What \<open>fn\<close> throws is on the left of its answer.
\<close>

definition withTransaction ::
  "('s world \<Rightarrow> ('e + 'a) \<times> 's world) \<Rightarrow> 's world \<Rightarrow> ('e + 'a) \<times> 's world" where
  "withTransaction fn w =
     (case fn (log Begin w) of
        (Inl e, w1) \<Rightarrow> (Inl e, log Rollback (w1\<lparr>rwDb := rwDb w\<rparr>))
      | (Inr x, w1) \<Rightarrow>
          (Inr x,
           log Commit
             (w1\<lparr>rwDb := (rwDb w1)\<lparr>savepoints := []\<rparr>,
                 roDb := (contents (rwDb w1), user_version (rwDb w1))\<rparr>)))"

text \<open>
  The function given to \<open>withTransaction\<close> in \<open>_waitForEvent\<close>, for the event that
  \<open>getNext\<close> returned. It answers \<open>None\<close> when the event was handled elsewhere and the
  stored event otherwise; when it throws, the error comes with the contents of the
  object \<open>event\<close> at that moment, which the \<open>catch\<close> of the loop spreads.
\<close>

definition handle_in_transaction ::
  "'s esdb \<Rightarrow> event \<Rightarrow> 's world \<Rightarrow> (jsval \<times> event + event option) \<times> 's world" where
  "handle_in_transaction eng event w =
     (case ESDB_getVersion eng w of
        (Inl e, w1) \<Rightarrow> (Inl (e, event), w1)
      | (Inr nowV, w1) \<Rightarrow>
          if (case ev_v event of Some v \<Rightarrow> v \<le> nowV | None \<Rightarrow> False) then (Inr None, w1)
          else
            (let event1 = set_result None (set_error Undefined event)
             in case rwDb_run eng (SAVEPOINT ''handle'') w1 of
                  (Some e, w2) \<Rightarrow> (Inl (e, event1), w2)
                | (None, w2) \<Rightarrow>
                    (case ESDB_handleEvent eng event1 0 w2 of (result, orig, w3) \<Rightarrow>
                       (case (if truthy (ev_error result) then
                                (case rwDb_run eng (ROLLBACK_TO_SAVEPOINT ''handle'') w3 of
                                   (Some e, w4) \<Rightarrow> (Some e, result, w4)
                                 | (None, w4) \<Rightarrow> (None, move_result result, w4))
                              else
                                (case rwDb_run eng (RELEASE_SAVEPOINT ''handle'') w3 of
                                   (r, w4) \<Rightarrow> (r, result, w4))) of
                          (Some e, result1, w4) \<Rightarrow> (Inl (e, orig), w4)
                        | (None, result1, w4) \<Rightarrow>
                            (case queue_set eng result1 w4 of
                               (Inl e, w5) \<Rightarrow> (Inl (e, orig), w5)
                             | (Inr stored, w5) \<Rightarrow> (Inr (Some stored), w5))))))"

text \<open>
  \<open>withTransaction(...).catch(...)\<close>: the event that the loop goes on with (\<open>None\<close> when
  another process had handled it).
\<close>

definition transact :: "'s esdb \<Rightarrow> event \<Rightarrow> 's world \<Rightarrow> event option \<times> 's world" where
  "transact eng event w =
     (case withTransaction (handle_in_transaction eng event) w of
        (Inl (error, orig), w1) \<Rightarrow>
          (Some (set_error (Obj [(''_SQLite'', Str (errorToString (stackOf eng) error))]) orig),
           if BE_QUIET eng then w1
           else log (ConsoleError
                  ''!!! ESDB: an error occured outside of the normal error handlers'') w1)
      | (Inr r, w1) \<Rightarrow> (r, w1))"

text \<open>
  \<open>lastV\<close> is a JavaScript number: \<open>None\<close> stands for NaN, which \<open>resultEvent.v - 1\<close>
  gives for an event without \<open>v\<close>.
\<close>

definition show_num :: "int option \<Rightarrow> string" where
  "show_num x = (case x of None \<Rightarrow> ''NaN'' | Some i \<Rightarrow> show_int i)"

text \<open>The block \<open>if (errorCount) { ... }\<close> that opens an iteration.\<close>

definition backoff :: "'s esdb \<Rightarrow> int option \<Rightarrow> nat \<Rightarrow> 's world \<Rightarrow> string + 's world" where
  "backoff eng lastV errorCount w =
     (if errorCount \<noteq> 0 then
        (if errorCount > MAX_RETRY then
           Inl (''Giving up on processing event '' @ show_num (map_option (\<lambda>l. l + 1) lastV))
         else
           (let w1 = (if db_file eng \<noteq> '':memory:'' then log (Close ''db'') w else w);
                w2 = (if rwDb_file eng \<noteq> '':memory:'' then log (Close ''rwDb'') w1 else w1);
                w3 = (if queue_file eng \<noteq> '':memory:'' then log (Close ''queue.db'') w2 else w2)
            in Inr (log (Wait (5000 * errorCount)) w3)))
      else Inr w)"

text \<open>
  How one pass through the body of the \<open>while\<close> ends: with the next values of \<open>lastV\<close>
  and \<open>errorCount\<close>, with \<open>return lastV\<close>, with \<open>return\<close>, with the fatal error, or
  suspended in \<open>getNext\<close>.
\<close>

datatype loop_step =
    Continue "int option" nat
  | Returns "int option"
  | ReturnsUndefined
  | Fatal string
  | Blocked

text \<open>The rest of a pass, from the \<open>try\<close> around \<open>getNext\<close> on.\<close>

definition poll_and_handle ::
  "'s esdb \<Rightarrow> int option \<Rightarrow> nat \<Rightarrow> 's world \<Rightarrow> loop_step \<times> 's world" where
  "poll_and_handle eng lastV errorCount w1 =
     (case ESDB_getVersion eng w1 of
        (Inl e, w2) \<Rightarrow>
          (Continue lastV (errorCount + 1),
           log (ConsoleError ''!!! ESDB: queue.getNext failed - this should not happen'') w2)
      | (Inr version, w2) \<Rightarrow>
          (case queue_getNext eng version (\<not> (isPolling w2 \<or> minVersion w2 \<noteq> 0)) w2 of
             (Inl e, w3) \<Rightarrow>
               (Continue lastV (errorCount + 1),
                log (ConsoleError
                  ''!!! ESDB: queue.getNext failed - this should not happen'') w3)
           | (Inr NoNext, w3) \<Rightarrow> (Returns lastV, w3)
           | (Inr Suspended, w3) \<Rightarrow> (Blocked, w3)
           | (Inr (Next event), w3) \<Rightarrow>
               (case transact eng event w3 of
                  (None, w4) \<Rightarrow> (Continue (ev_v event) errorCount, w4)
                | (Some resultEvent, w4) \<Rightarrow>
                    (let failed = truthy (ev_error resultEvent);
                         errorCount1 = (if failed then errorCount + 1 else 0);
                         lastV1 = (if failed then map_option (\<lambda>v. v - 1) (ev_v resultEvent)
                                   else ev_v event);
                         w5 = (if failed \<and> \<not> BE_QUIET eng then
                                 log (ConsoleError
                                   (''!!! ESDB: event '' @ ev_type event
                                      @ '' processing failed'')) w4
                               else w4);
                         w6 = ESDB_triggerEventListeners eng resultEvent w5
                     in if reallyStop w6 \<or> (errorCount1 \<noteq> 0 \<and> stopPollingOnError w6)
                        then (ReturnsUndefined, w6\<lparr>reallyStop := False\<rparr>)
                        else (Continue lastV1 errorCount1, w6)))))"

definition loop_iteration ::
  "'s esdb \<Rightarrow> int option \<Rightarrow> nat \<Rightarrow> 's world \<Rightarrow> loop_step \<times> 's world" where
  "loop_iteration eng lastV errorCount w =
     (case backoff eng lastV errorCount w of
        Inl msg \<Rightarrow> (Fatal msg, w)
      | Inr w1 \<Rightarrow> poll_and_handle eng lastV errorCount w1)"

text \<open>
  \<open>_waitForEvent\<close>. The loop polls for as long as it is asked to, so it runs on fuel:
  \<open>None\<close> says that the passes allowed did not end it.
\<close>

fun waitForEvent_loop ::
  "nat \<Rightarrow> 's esdb \<Rightarrow> int option \<Rightarrow> nat \<Rightarrow> 's world \<Rightarrow> (loop_step \<times> 's world) option" where
  "waitForEvent_loop 0 eng lastV errorCount w = None"
| "waitForEvent_loop (Suc fuel) eng lastV errorCount w =
     (if minVersion w = 0 \<or> (case lastV of Some l \<Rightarrow> minVersion w > l | None \<Rightarrow> False) then
        (case loop_iteration eng lastV errorCount w of
           (Continue lastV1 errorCount1, w1) \<Rightarrow> waitForEvent_loop fuel eng lastV1 errorCount1 w1
         | (r, w1) \<Rightarrow> Some (r, w1))
      else Some (Returns lastV, w))"

definition ESDB_waitForEvent :: "nat \<Rightarrow> 's esdb \<Rightarrow> 's world \<Rightarrow> (loop_step \<times> 's world) option" where
  "ESDB_waitForEvent fuel eng w = waitForEvent_loop fuel eng (Some 0) 0 w"

section \<open>Construction\<close>


















text \<open>The writes of \<open>user_version\<close> among the actions done so far.\<close>

fun is_version_write :: "action \<Rightarrow> bool" where
  "is_version_write (Run (PRAGMA_user_version x)) = True"
| "is_version_write a = False"

definition version_writes :: "'s world \<Rightarrow> action list" where
  "version_writes w = filter is_version_write (trace w)"

text \<open>The model whose deriver an action is the call of, if it is one.\<close>

fun derived_by :: "action \<Rightarrow> string list" where
  "derived_by (Derive n event) = [n]"
| "derived_by a = []"

text \<open>
  Two frame conditions on a step from \<open>w\<close> to \<open>w'\<close>. \<open>touches_store\<close>: the step does
  more actions and changes at most the tables and \<open>user_version\<close> of the read-write
  connection. \<open>touches_tables\<close>: moreover it leaves \<open>user_version\<close> alone and does not
  write it.
\<close>

definition touches_store :: "'s world \<Rightarrow> 's world \<Rightarrow> bool" where
  "touches_store w w' =
     (\<exists>c u T. w' = w\<lparr>rwDb := (rwDb w)\<lparr>contents := c, user_version := u\<rparr>,
                       trace := trace w @ T\<rparr>)"

definition touches_tables :: "'s world \<Rightarrow> 's world \<Rightarrow> bool" where
  "touches_tables w w' =
     (\<exists>c T. w' = w\<lparr>rwDb := (rwDb w)\<lparr>contents := c\<rparr>, trace := trace w @ T\<rparr>
             \<and> filter is_version_write T = [])"

text \<open>
  What the reducer of a key leaves in \<open>result\<close> for an event, and the error that counts
  for it: the \<open>error\<close> of that entry when it is truthy.
\<close>

definition reducer_entry :: "'s esdb \<Rightarrow> 's world \<Rightarrow> event \<Rightarrow> string \<Rightarrow> reducer_out option" where
  "reducer_entry eng w event key =
     fst (settle_reducer (stackOf eng) (call_reducer eng (ro_store eng w) event key))"

definition reducer_error :: "'s esdb \<Rightarrow> 's world \<Rightarrow> event \<Rightarrow> string \<Rightarrow> jsval" where
  "reducer_error eng w event key =
     (case reducer_entry eng w event key of
        None \<Rightarrow> Undefined
      | Some r \<Rightarrow> if truthy (out_error r) then out_error r else Undefined)"

text \<open>The observer events emitted so far, in order: name and event.\<close>

fun emission :: "action \<Rightarrow> (string \<times> event) list" where
  "emission (Emit n event) = [(n, event)]"
| "emission a = []"

definition emitted :: "'s world \<Rightarrow> (string \<times> event) list" where
  "emitted w = concat (map emission (trace w))"

text \<open>The promises of waiters settled so far, in order: the promise and the event.\<close>

fun settlement :: "action \<Rightarrow> (nat \<times> event) list" where
  "settlement (Resolve p event) = [(p, event)]"
| "settlement (Reject p event) = [(p, event)]"
| "settlement a = []"

definition settlements :: "'s world \<Rightarrow> (nat \<times> event) list" where
  "settlements w = concat (map settlement (trace w))"


section \<open>Example engines\<close>

text \<open>
  Concrete models, engines and states on which the properties below are exercised. The
  store is the list of the changes applied so far.
\<close>

definition example_stack :: "string \<Rightarrow> string" where
  "example_stack header = header @ [CHR 0x0A] @ ''    at ESDB''"

definition no_fault :: "nat \<Rightarrow> op \<Rightarrow> jsval option" where
  "no_fault k x = None"

text \<open>
  An engine over the given models, on one in-memory database: every model is in the
  lists that its callbacks put it in.
\<close>

definition example_engine :: "string list model list \<Rightarrow> string list esdb" where
  "example_engine ms =
     \<lparr>stackOf = example_stack, fault = no_fault, latency = (\<lambda>key event. 1),
      BE_QUIET = True, db_is_rwDb = True,
      db_file = '':memory:'', rwDb_file = '':memory:'', queue_file = '':memory:'',
      store = map (\<lambda>m. (name m, m)) ms,
      rwStore = map (\<lambda>m. (name m, m)) ms,
      reducerNames = map name (filter (\<lambda>m. reducer m \<noteq> None) ms),
      reducerModels = map (\<lambda>m. (name m, m)) (filter (\<lambda>m. reducer m \<noteq> None) ms),
      deriverModels = filter (\<lambda>m. deriver m \<noteq> None) ms,
      preprocModels = filter (\<lambda>m. preprocessor m \<noteq> None) ms,
      readWriters = filter setWritable ms\<rparr>"

definition example_world :: "string list world" where
  "example_world =
     \<lparr>rwDb = \<lparr>contents = [], user_version = 0, savepoints = []\<rparr>,
      roDb = ([], 0), queue = [],
      waitingFor = [], maxWaitingFor = 0, promises = 0, deferred = [],
      listeners = (\<lambda>n. []),
      minVersion = 0, isPolling = False, reallyStop = False, stopPollingOnError = False,
      waitingP = False, trace = []\<rparr>"

definition example_event :: event where
  "example_event = Event (Some 1) ''ADD'' ''a'' None None Undefined None None"

text \<open>
  Model \<open>foo\<close>: its reducer asks to store the data of the event and, for an event of type
  \<open>PARENT\<close>, for the three sub-events \<open>ADD\<close>, \<open>BAD\<close> and \<open>ADD\<close>; it throws on an event of type
  \<open>BAD\<close>. \<open>applyChanges\<close> appends the change to the store.
\<close>

definition foo_model :: "string list model" where
  "foo_model =
     \<lparr>name = ''foo'',
      preprocessor = None,
      reducer = Some (\<lambda>st event.
        if ev_type event = ''BAD'' then RThrows (Str ''bad event'')
        else ROut \<lparr>out_error = Undefined, out_changes = ev_data event\<rparr>
               (if ev_type event = ''PARENT''
                then EventsArray
                       [sub_event ''ADD'' ''y'', sub_event ''BAD'' ''x'', sub_event ''ADD'' ''z'']
                else NoEvents)),
      deriver = None,
      applyChanges = Some (\<lambda>out st. (st @ [out_changes out], None)),
      setWritable = True\<rparr>"

text \<open>Model \<open>cache\<close>: a deriver that notes the type of each event in the store.\<close>

definition cache_model :: "string list model" where
  "cache_model =
     \<lparr>name = ''cache'',
      preprocessor = None,
      reducer = None,
      deriver = Some (\<lambda>st event. (st @ [''derived '' @ ev_type event], [], None)),
      applyChanges = None,
      setWritable = False\<rparr>"

text \<open>
  Model \<open>canon\<close>: a preprocessor that leaves its input alone and returns a new event with
  the data \<open>canonical\<close>.
\<close>

definition canon_model :: "string list model" where
  "canon_model =
     \<lparr>name = ''canon'',
      preprocessor = Some (\<lambda>st event.
        PP event (PNew (Event (ev_v event) (ev_type event) ''canonical'' (ev_ts event)
                          (ev_result event) (ev_error event) (ev_failedResult event)
                          (ev_events event)))),
      reducer = None,
      deriver = None,
      applyChanges = None,
      setWritable = False\<rparr>"

text \<open>Model \<open>odd\<close>: a reducer that throws an empty array.\<close>

definition odd_model :: "string list model" where
  "odd_model =
     \<lparr>name = ''odd'',
      preprocessor = None,
      reducer = Some (\<lambda>st event. RThrows (Other [])),
      deriver = None,
      applyChanges = Some (\<lambda>out st. (st, None)),
      setWritable = False\<rparr>"

text \<open>Model \<open>idle\<close>: a reducer that returns the model itself.\<close>

definition idle_model :: "string list model" where
  "idle_model =
     \<lparr>name = ''idle'',
      preprocessor = None,
      reducer = Some (\<lambda>st event. RModel),
      deriver = None,
      applyChanges = Some (\<lambda>out st. (st, None)),
      setWritable = False\<rparr>"

text \<open>An event of the type on which the reducer of \<open>foo\<close> throws.\<close>

definition bad_event :: event where
  "bad_event = Event (Some 1) ''BAD'' ''x'' None None Undefined None None"

text \<open>The example event as the reducer of \<open>foo\<close> returns it.\<close>

definition reduced_event :: event where
  "reduced_event =
     Event (Some 1) ''ADD'' ''a'' None
       (Some [(''foo'', \<lparr>out_error = Undefined, out_changes = ''a''\<rparr>)]) Undefined None None"

text \<open>
  An event of type \<open>PARENT\<close> as the reducer of \<open>foo\<close> returns it, with its three
  sub-events.
\<close>

definition parent_event :: event where
  "parent_event =
     Event (Some 7) ''PARENT'' ''p'' None
       (Some [(''foo'', \<lparr>out_error = Undefined, out_changes = ''p''\<rparr>)]) Undefined None
       (Some [sub_event ''ADD'' ''y'', sub_event ''BAD'' ''x'', sub_event ''ADD'' ''z''])"

text \<open>The same event as it comes from the queue.\<close>

definition parent_queued :: event where
  "parent_queued = Event (Some 7) ''PARENT'' ''p'' None None Undefined None None"

text \<open>The same engine on a database file, with a read-only connection of its own.\<close>

definition file_engine :: "string list model list \<Rightarrow> string list esdb" where
  "file_engine ms =
     (example_engine ms)\<lparr>db_is_rwDb := False, db_file := ''/var/db/app.sqlite'',
                           rwDb_file := ''/var/db/app.sqlite'',
                           queue_file := ''/var/db/app.sqlite''\<rparr>"




text \<open>The example event as a failed reducer leaves it.\<close>

definition failed_event :: event where
  "failed_event =
     Event (Some 1) ''ADD'' ''a'' None None (Obj [(''reduce_foo'', Str ''bad event'')])
       None None"

text \<open>
  A state with a waiter (promise 0) for version 1 and an observer of \<open>result\<close> that
  throws.
\<close>

definition observed_world :: "string list world" where
  "observed_world =
     example_world\<lparr>waitingFor := [(1, 0)], maxWaitingFor := 1, promises := 1,
       listeners :=
         (\<lambda>n. if n = ''result'' then [\<lambda>event. Some (Str ''observer failed'')] else [])\<rparr>"




section \<open>Properties\<close>

subsection \<open>Fields of an updated event\<close>

lemma ev_set_error [simp]:
  "ev_error (set_error x e) = x" "ev_v (set_error x e) = ev_v e" "ev_type (set_error x e) = ev_type e"
  "ev_data (set_error x e) = ev_data e" "ev_ts (set_error x e) = ev_ts e"
  "ev_result (set_error x e) = ev_result e" "ev_failedResult (set_error x e) = ev_failedResult e"
  "ev_events (set_error x e) = ev_events e"
  by (cases e; simp)+

lemma ev_set_v [simp]:
  "ev_v (set_v x e) = x" "ev_error (set_v x e) = ev_error e" "ev_type (set_v x e) = ev_type e"
  "ev_data (set_v x e) = ev_data e" "ev_ts (set_v x e) = ev_ts e"
  "ev_result (set_v x e) = ev_result e" "ev_failedResult (set_v x e) = ev_failedResult e"
  "ev_events (set_v x e) = ev_events e"
  by (cases e; simp)+

lemma ev_set_type [simp]:
  "ev_type (set_type x e) = x" "ev_error (set_type x e) = ev_error e" "ev_v (set_type x e) = ev_v e"
  "ev_data (set_type x e) = ev_data e" "ev_ts (set_type x e) = ev_ts e"
  "ev_result (set_type x e) = ev_result e" "ev_failedResult (set_type x e) = ev_failedResult e"
  "ev_events (set_type x e) = ev_events e"
  by (cases e; simp)+

lemma ev_set_result [simp]:
  "ev_result (set_result x e) = x" "ev_error (set_result x e) = ev_error e" "ev_v (set_result x e) = ev_v e"
  "ev_data (set_result x e) = ev_data e" "ev_ts (set_result x e) = ev_ts e"
  "ev_type (set_result x e) = ev_type e" "ev_failedResult (set_result x e) = ev_failedResult e"
  "ev_events (set_result x e) = ev_events e"
  by (cases e; simp)+

lemma ev_set_failedResult [simp]:
  "ev_failedResult (set_failedResult x e) = x" "ev_error (set_failedResult x e) = ev_error e"
  "ev_v (set_failedResult x e) = ev_v e"
  "ev_data (set_failedResult x e) = ev_data e" "ev_ts (set_failedResult x e) = ev_ts e"
  "ev_type (set_failedResult x e) = ev_type e" "ev_result (set_failedResult x e) = ev_result e"
  "ev_events (set_failedResult x e) = ev_events e"
  by (cases e; simp)+

lemma ev_set_events [simp]:
  "ev_events (set_events x e) = x" "ev_error (set_events x e) = ev_error e"
  "ev_v (set_events x e) = ev_v e"
  "ev_data (set_events x e) = ev_data e" "ev_ts (set_events x e) = ev_ts e"
  "ev_type (set_events x e) = ev_type e" "ev_result (set_events x e) = ev_result e"
  "ev_failedResult (set_events x e) = ev_failedResult e"
  by (cases e; simp)+

subsection \<open>The recursion guard\<close>

text \<open>
  Claim C7. An event handled at a depth above 100 goes through no phase of the pipeline:
  \<open>_handleEvent\<close> returns it at once with the error key \<open>_handle\<close> set to
  \<open>events recursing too deep\<close> (added to the error it may already carry), and neither the
  state nor the list of actions changes.
\<close>

theorem C7_recursion_guard:
  assumes "depth > 100"
  shows "ESDB_handleEvent eng origEvent depth w =
           (set_error (Obj (AList.update ''_handle'' (Str ''events recursing too deep'')
                              (spread (ev_error origEvent)))) origEvent, origEvent, w)
         \<and> get_prop (ev_error (fst (ESDB_handleEvent eng origEvent depth w))) ''_handle''
             = Str ''events recursing too deep''
         \<and> trace (snd (snd (ESDB_handleEvent eng origEvent depth w))) = trace w"
proof -
  have eq: "ESDB_handleEvent eng origEvent depth w =
           (set_error (Obj (AList.update ''_handle'' (Str ''events recursing too deep'')
                              (spread (ev_error origEvent)))) origEvent, origEvent, w)"
    using assms by (subst ESDB_handleEvent.simps) simp
  show ?thesis
    unfolding eq by (simp add: update_conv')
qed

theorem C7_recursion_guard_witness:
  "(101::nat) > 100 \<and>
   ESDB_handleEvent (example_engine [foo_model]) example_event 101 example_world =
     (Event (Some 1) ''ADD'' ''a'' None None
        (Obj [(''_handle'', Str ''events recursing too deep'')]) None None,
      example_event, example_world)"
  using C7_recursion_guard [of 101 "example_engine [foo_model]" example_event example_world]
  by (simp add: example_event_def)

subsection \<open>Backoff in the polling loop\<close>

lemma show_nat_digit: "n < 10 \<Longrightarrow> show_nat n = [''0123456789'' ! n]"
  by (subst show_nat.simps) simp

text \<open>
  Claim C8, as stated, fails for handles on \<open>:memory:\<close>: a pass entered with one error
  on an engine whose three handles are in memory sleeps and asks the queue again, and
  closes nothing.
\<close>

theorem C8_memory_handles_stay_open:
  "trace (snd (loop_iteration (example_engine [foo_model]) (Some 0) 1 example_world))
     = [Wait 5000, GetVersion, QueueGetNext 0 True]"
  by (simp add: loop_iteration_def backoff_def MAX_RETRY_def example_engine_def
      example_world_def log_def poll_and_handle_def ESDB_getVersion_def faulty_def
      no_fault_def queue_getNext_def next_row_def)

text \<open>
  Claim C8, amended. \<open>MAX_RETRY\<close> is 38. A pass entered with a positive error count
  above \<open>MAX_RETRY\<close> ends the loop with the fatal error
  \<open>Giving up on processing event <lastV+1>\<close> and does nothing else. Entered with a
  positive error count up to \<open>MAX_RETRY\<close>, it closes each of the read-only, read-write
  and queue handles whose file is not \<open>:memory:\<close>, sleeps 5000 ms times the error
  count, and then goes on as any pass does (it reads the persisted version and asks the
  queue for the event after it), from a state that differs only in these actions.
\<close>

theorem C8_backoff:
  assumes "errorCount > 0"
  shows "MAX_RETRY = 38
    \<and> (errorCount > MAX_RETRY \<longrightarrow>
         loop_iteration eng lastV errorCount w =
           (Fatal (''Giving up on processing event ''
                     @ show_num (map_option (\<lambda>l. l + 1) lastV)), w))
    \<and> (errorCount \<le> MAX_RETRY \<longrightarrow>
         loop_iteration eng lastV errorCount w =
           poll_and_handle eng lastV errorCount
             (w\<lparr>trace := trace w
                  @ (if db_file eng \<noteq> '':memory:'' then [Close ''db''] else [])
                  @ (if rwDb_file eng \<noteq> '':memory:'' then [Close ''rwDb''] else [])
                  @ (if queue_file eng \<noteq> '':memory:'' then [Close ''queue.db''] else [])
                  @ [Wait (5000 * errorCount)]\<rparr>))"
  using assms
  by (simp add: loop_iteration_def backoff_def MAX_RETRY_def log_def)

theorem C8_backoff_witness:
  "(0::nat) < 39 \<and> (0::nat) < 2
   \<and> loop_iteration (file_engine [foo_model]) (Some 0) 39 example_world =
       (Fatal ''Giving up on processing event 1'', example_world)
   \<and> loop_iteration (file_engine [foo_model]) (Some 0) 2 example_world =
       poll_and_handle (file_engine [foo_model]) (Some 0) 2
         (example_world\<lparr>trace :=
            [Close ''db'', Close ''rwDb'', Close ''queue.db'', Wait 10000]\<rparr>)"
proof -
  have s: "show_num (Some 1) = ''1''"
    by (simp add: show_num_def show_int_def show_nat_digit)
  have f: "db_file (file_engine [foo_model]) \<noteq> '':memory:''"
    "rwDb_file (file_engine [foo_model]) \<noteq> '':memory:''"
    "queue_file (file_engine [foo_model]) \<noteq> '':memory:''"
    by (simp_all add: file_engine_def)
  have t: "trace example_world = []"
    by (simp add: example_world_def)
  have fatal: "loop_iteration (file_engine [foo_model]) (Some 0) 39 example_world =
       (Fatal ''Giving up on processing event 1'', example_world)"
    using C8_backoff [of 39 "file_engine [foo_model]" "Some 0" example_world]
    by (simp add: MAX_RETRY_def s)
  have retry: "loop_iteration (file_engine [foo_model]) (Some 0) 2 example_world =
       poll_and_handle (file_engine [foo_model]) (Some 0) 2
         (example_world\<lparr>trace :=
            [Close ''db'', Close ''rwDb'', Close ''queue.db'', Wait 10000]\<rparr>)"
    using C8_backoff [of 2 "file_engine [foo_model]" "Some 0" example_world]
    by (simp add: MAX_RETRY_def f t)
  show ?thesis
  proof (intro conjI)
    show "(0::nat) < 39" by simp
    show "(0::nat) < 2" by simp
  qed (rule fatal, rule retry)
qed

subsection \<open>Construction\<close>













subsection \<open>Observers and waiters\<close>

lemma emitted_log [simp]: "emitted (log a w) = emitted w @ emission a"
  by (simp add: emitted_def log_def)

lemma settlements_log [simp]: "settlements (log a w) = settlements w @ settlement a"
  by (simp add: settlements_def log_def)

lemma sweep_keeps [simp]:
  "listeners (sweep eng v vs w) = listeners w"
  "emitted (sweep eng v vs w) = emitted w"
  "settlements (sweep eng v vs w) = settlements w"
  by (induction vs arbitrary: w) (simp_all add: log_def emitted_def settlements_def)

lemma waitingFor_keeps [simp]:
  "emitted (w\<lparr>waitingFor := x\<rparr>) = emitted w"
  "settlements (w\<lparr>waitingFor := x\<rparr>) = settlements w"
  by (simp_all add: emitted_def settlements_def)

lemma take_waiters_fst:
  "fst (take_waiters eng event w) =
     (case ev_v event of None \<Rightarrow> None | Some v \<Rightarrow> map_of (waitingFor w) v)"
  by (simp add: take_waiters_def Let_def)

lemma take_waiters_keeps [simp]:
  "listeners (snd (take_waiters eng event w)) = listeners w"
  "emitted (snd (take_waiters eng event w)) = emitted w"
  "settlements (snd (take_waiters eng event w)) = settlements w"
  by (simp_all add: take_waiters_def Let_def split: option.splits)

lemma emit_guarded_emitted [simp]:
  "emitted (emit_guarded eng n event w) = emitted w @ [(n, event)]"
  by (simp add: emit_guarded_def emit_def split: option.splits)

lemma emit_guarded_settlements [simp]:
  "settlements (emit_guarded eng n event w) = settlements w"
  by (simp add: emit_guarded_def emit_def split: option.splits)

lemma triggerEventListeners_emitted:
  "emitted (ESDB_triggerEventListeners eng event w) =
     emitted w @
       (if truthy (ev_error event)
        then (if listenerCount w ''error'' \<noteq> 0 then [(''error'', event)] else [])
        else [(''result'', event)])"
proof -
  obtain waiter w2 where t: "take_waiters eng event w = (waiter, w2)"
    by (cases "take_waiters eng event w")
  have w2: "listeners w2 = listeners w" "emitted w2 = emitted w"
    using take_waiters_keeps [of eng event w] t by simp_all
  show ?thesis
    by (simp add: ESDB_triggerEventListeners_def t Let_def listenerCount_def w2
          split: option.splits)
qed

lemma triggerEventListeners_settlements:
  "settlements (ESDB_triggerEventListeners eng event w) =
     settlements w @
       (if truthy (ev_error event) then []
        else (case ev_v event of
                None \<Rightarrow> []
              | Some v \<Rightarrow> (case map_of (waitingFor w) v of
                             None \<Rightarrow> []
                           | Some p \<Rightarrow> [(p, event)])))"
proof -
  obtain waiter w2 where t: "take_waiters eng event w = (waiter, w2)"
    by (cases "take_waiters eng event w")
  have w2: "settlements w2 = settlements w"
    using take_waiters_keeps [of eng event w] t by simp
  have waiter: "waiter = (case ev_v event of None \<Rightarrow> None | Some v \<Rightarrow> map_of (waitingFor w) v)"
    using take_waiters_fst [of eng event w] t by simp
  show ?thesis
    by (simp add: ESDB_triggerEventListeners_def t Let_def w2 waiter split: option.splits)
qed

text \<open>
  Claim C5, as stated, fails for the observer event \<open>handled\<close>: for the example event,
  which has no error, \<open>_triggerEventListeners\<close> emits no \<open>handled\<close>.
\<close>

theorem C5_no_handled_event:
  "(''handled'', example_event)
     \<notin> set (emitted (ESDB_triggerEventListeners (example_engine [foo_model]) example_event
                 example_world))"
proof -
  have "emitted example_world = []"
    by (simp add: emitted_def example_world_def)
  then show ?thesis
    by (simp add: triggerEventListeners_emitted)
qed

text \<open>
  Claim C5, amended. For an event passed to \<open>_triggerEventListeners\<close> the engine emits
  exactly one observer event: \<open>result\<close> when the event has no error, \<open>error\<close> when it
  has one and an \<open>error\<close> listener exists; with an error and no such listener it emits
  nothing, and it never emits \<open>handled\<close>. What an observer throws is caught and ignored:
  whatever the observers do, a waiter of the version of an event without error is resolved
  with the event afterwards.
\<close>

theorem C5_observer_events:
  "emitted (ESDB_triggerEventListeners eng event w) =
     emitted w @
       (if truthy (ev_error event)
        then (if listenerCount w ''error'' \<noteq> 0 then [(''error'', event)] else [])
        else [(''result'', event)])
   \<and> (\<forall>v p. \<not> truthy (ev_error event) \<and> ev_v event = Some v
          \<and> map_of (waitingFor w) v = Some p
        \<longrightarrow> settlements (ESDB_triggerEventListeners eng event w) = settlements w @ [(p, event)])"
  by (simp add: triggerEventListeners_emitted triggerEventListeners_settlements)

theorem C5_observer_events_witness:
  "\<not> truthy (ev_error example_event) \<and> ev_v example_event = Some 1
   \<and> map_of (waitingFor observed_world) 1 = Some 0
   \<and> run_listeners (listeners observed_world ''result'') example_event
       = Some (Str ''observer failed'')
   \<and> emitted (ESDB_triggerEventListeners (example_engine [foo_model]) example_event
        observed_world) = [(''result'', example_event)]
   \<and> settlements (ESDB_triggerEventListeners (example_engine [foo_model]) example_event
        observed_world) = [(0, example_event)]"
proof -
  have h: "\<not> truthy (ev_error example_event)" "ev_v example_event = Some 1"
    "map_of (waitingFor observed_world) 1 = Some 0"
    by (simp_all add: example_event_def observed_world_def example_world_def)
  have l: "run_listeners (listeners observed_world ''result'') example_event
       = Some (Str ''observer failed'')"
    by (simp add: observed_world_def example_world_def)
  have e: "emitted observed_world = []" "settlements observed_world = []"
    by (simp_all add: observed_world_def example_world_def emitted_def settlements_def)
  show ?thesis
    using C5_observer_events [of "example_engine [foo_model]" example_event observed_world] h l e
    by simp
qed

text \<open>
  Claim C2 does not hold of the code: a waiter for the version of an event that failed is
  taken out of \<open>_waitingFor\<close>, and its promise is neither rejected nor resolved. Here
  \<open>handledVersion(1)\<close> registers promise 0, and the event of version 1 comes back with an
  error.
\<close>

theorem C2_failed_waiter_never_settled:
  "fst (ESDB_handledVersion (example_engine [foo_model]) 1 example_world) = Pending 0
   \<and> waitingFor (snd (ESDB_handledVersion (example_engine [foo_model]) 1 example_world))
       = [(1, 0)]
   \<and> truthy (ev_error failed_event)
   \<and> waitingFor (ESDB_triggerEventListeners (example_engine [foo_model]) failed_event
        (snd (ESDB_handledVersion (example_engine [foo_model]) 1 example_world))) = []
   \<and> settlements (ESDB_triggerEventListeners (example_engine [foo_model]) failed_event
        (snd (ESDB_handledVersion (example_engine [foo_model]) 1 example_world))) = []"
proof -
  have hv: "ESDB_handledVersion (example_engine [foo_model]) 1 example_world =
      (Pending 0,
       example_world\<lparr>waitingFor := [(1, 0)], maxWaitingFor := 1, promises := 1,
                      minVersion := 1, waitingP := True, trace := [GetVersion]\<rparr>)"
    by (simp add: ESDB_handledVersion_def ESDB_getVersion_def faulty_def example_engine_def
        no_fault_def example_world_def log_def ESDB_startPolling_def Let_def)
  show ?thesis
    unfolding hv
    by (simp add: ESDB_triggerEventListeners_def take_waiters_def failed_event_def
        example_world_def listenerCount_def settlements_def Let_def AList.delete_eq)
qed

subsection \<open>The event that the reducers see\<close>

text \<open>
  Claim C4 does not hold of the code: \<open>_handleEvent\<close> passes \<open>origEvent\<close> to
  \<open>_reducer\<close>, not the event that \<open>_preprocessor\<close> returned. With the preprocessor of
  \<open>canon\<close>, which returns a new event with the data \<open>canonical\<close>, the reducer of \<open>foo\<close>
  is called with the event as it came in, and the result holds the data \<open>a\<close>.
\<close>

theorem C4_reducer_gets_original_event:
  "ev_data (fst (ESDB_preprocessor (example_engine [canon_model, foo_model]) example_event
      example_world)) = ''canonical''
   \<and> fst (ESDB_handleEvent (example_engine [canon_model, foo_model]) example_event 0
        example_world)
     = Event (Some 1) ''ADD'' ''a'' None
         (Some [(''foo'', \<lparr>out_error = Undefined, out_changes = ''a''\<rparr>)]) Undefined None None
   \<and> Reduce ''foo'' (Event (Some 1) ''ADD'' ''a'' None None Undefined None None)
       \<in> set (trace (snd (snd (ESDB_handleEvent (example_engine [canon_model, foo_model])
              example_event 0 example_world))))"
  by code_simp

subsection \<open>The reduce phase\<close>

lemma reduce_key_inj [simp]: "reduce_key a = reduce_key b \<longleftrightarrow> a = b"
  by (simp add: reduce_key_def)

lemma run_reducers_result:
  "map_of (fst (run_reducers eng st event keys result pushed)) k =
     (if k \<in> set keys
      then (case fst (settle_reducer (stackOf eng) (call_reducer eng st event k)) of
              None \<Rightarrow> map_of result k
            | Some out \<Rightarrow> Some out)
      else map_of result k)"
proof (induction keys arbitrary: result pushed)
  case Nil
  show ?case by simp
next
  case (Cons key keys)
  obtain r es where s: "settle_reducer (stackOf eng) (call_reducer eng st event key) = (r, es)"
    by (cases "settle_reducer (stackOf eng) (call_reducer eng st event key)")
  show ?case
    by (cases r) (auto simp: s Cons.IH update_conv' split: option.splits)
qed

lemma reduce_errors_fold:
  "map_of (fold (\<lambda>name error.
             (case map_of result name of
                None \<Rightarrow> error
              | Some r \<Rightarrow>
                  if truthy (out_error r)
                  then AList.update (reduce_key name) (out_error r) error
                  else error)) names acc) (reduce_key n) =
     (if n \<in> set names \<and> reducer_failed result n
      then map_option out_error (map_of result n)
      else map_of acc (reduce_key n))"
proof (induction names arbitrary: acc)
  case Nil
  show ?case by simp
next
  case (Cons a names)
  show ?case
    by (auto simp: Cons.IH reducer_failed_def update_conv' split: option.splits)
qed

lemma reduce_errors_keys:
  "fst ` set (fold (\<lambda>name error.
             (case map_of result name of
                None \<Rightarrow> error
              | Some r \<Rightarrow>
                  if truthy (out_error r)
                  then AList.update (reduce_key name) (out_error r) error
                  else error)) names acc)
   \<subseteq> fst ` set acc \<union> reduce_key ` {n \<in> set names. reducer_failed result n}"
proof (induction names arbitrary: acc)
  case Nil
  show ?case by simp
next
  case (Cons a names)
  have step: "fst ` set (fold (\<lambda>name error.
             (case map_of result name of
                None \<Rightarrow> error
              | Some r \<Rightarrow>
                  if truthy (out_error r)
                  then AList.update (reduce_key name) (out_error r) error
                  else error)) names acc')
   \<subseteq> fst ` set acc' \<union> reduce_key ` {n \<in> set names. reducer_failed result n}" for acc'
    by (rule Cons.IH)
  show ?case
  proof (cases "map_of result a")
    case None
    then show ?thesis using step [of acc] by auto
  next
    case (Some r)
    show ?thesis
    proof (cases "truthy (out_error r)")
      case True
      then have "reducer_failed result a" by (simp add: reducer_failed_def Some)
      then show ?thesis
        using step [of "AList.update (reduce_key a) (out_error r) acc"] Some True
        by (auto simp: dom_update)
    next
      case False
      then show ?thesis using step [of acc] Some by auto
    qed
  qed
qed


lemma set_settle_order [simp]: "set (settle_order eng event) = set (reducerNames eng)"
  by (simp add: settle_order_def)

lemma reducer_cases:
  fixes eng event w
  defines "R \<equiv> fst (run_reducers eng (ro_store eng w) event (settle_order eng event) [] [])"
  shows "\<forall>n\<in>set (reducerNames eng). map_of R n = reducer_entry eng w event n"
    and "\<forall>n\<in>set (reducerNames eng).
           reducer_failed R n = truthy (reducer_error eng w event n)"
    and "list_ex (reducer_failed R) (reducerNames eng) \<Longrightarrow>
           \<exists>event1. fst (ESDB_reducer eng event w)
                      = set_error (Obj (reduce_errors (reducerNames eng) R)) event1
                    \<and> ev_result event1 = ev_result event"
    and "\<not> list_ex (reducer_failed R) (reducerNames eng) \<Longrightarrow>
           ev_result (fst (ESDB_reducer eng event w)) = Some R
           \<and> ev_error (fst (ESDB_reducer eng event w)) = ev_error event"
proof -
  show m: "\<forall>n\<in>set (reducerNames eng). map_of R n = reducer_entry eng w event n"
    by (auto simp: R_def run_reducers_result reducer_entry_def split: option.splits)
  show "\<forall>n\<in>set (reducerNames eng).
           reducer_failed R n = truthy (reducer_error eng w event n)"
    using m by (auto simp: reducer_failed_def reducer_error_def split: option.splits)
  obtain R' P where
    rr: "run_reducers eng (ro_store eng w) event (settle_order eng event) [] [] = (R', P)"
    by (cases "run_reducers eng (ro_store eng w) event (settle_order eng event) [] []")
  then have R': "R' = R" by (simp add: R_def)
  show "\<exists>event1. fst (ESDB_reducer eng event w)
                      = set_error (Obj (reduce_errors (reducerNames eng) R)) event1
                    \<and> ev_result event1 = ev_result event"
    if "list_ex (reducer_failed R) (reducerNames eng)"
    using that by (auto simp: ESDB_reducer_def rr R' Let_def split: option.splits)
  show "ev_result (fst (ESDB_reducer eng event w)) = Some R
           \<and> ev_error (fst (ESDB_reducer eng event w)) = ev_error event"
    if "\<not> list_ex (reducer_failed R) (reducerNames eng)"
    using that by (auto simp: ESDB_reducer_def rr R' Let_def split: option.splits)
qed

lemma reduce_errors_get:
  "get_prop (Obj (reduce_errors names result)) (reduce_key n) =
     (if n \<in> set names \<and> reducer_failed result n
      then (case map_of result n of Some r \<Rightarrow> out_error r | None \<Rightarrow> Undefined)
      else Undefined)"
  by (simp add: reduce_errors_def reduce_errors_fold split: option.splits)

lemma reduce_errors_dom:
  "fst ` set (reduce_errors names result)
     \<subseteq> reduce_key ` {n \<in> set names. reducer_failed result n}"
  using reduce_errors_keys [of result names "[]"] by (simp add: reduce_errors_def)

text \<open>
  What the reduce phase does. A reducer that throws leaves the entry
  \<open>{error: errorToString(thrown)}\<close>; a reducer that returns a falsy value or the model
  itself leaves no entry. A reducer counts as failed when the \<open>error\<close> of its entry is
  truthy. If at least one has failed, the \<open>error\<close> of the event returned is the map with,
  under \<open>reduce_<name>\<close>, the error of every such reducer and nothing else, and the
  \<open>result\<close> is left as it came in. If none has, the \<open>error\<close> of the event is untouched and
  its \<open>result\<close> holds the entry of every reducer.
\<close>

lemma reduce_phase:
  "(call_reducer eng (ro_store eng w) event key = RThrows e \<longrightarrow>
      reducer_entry eng w event key
        = Some \<lparr>out_error = Str (errorToString (stackOf eng) e), out_changes = []\<rparr>)
   \<and> (call_reducer eng (ro_store eng w) event key = RFalsy
        \<or> call_reducer eng (ro_store eng w) event key = RModel \<longrightarrow>
      reducer_entry eng w event key = None \<and> reducer_error eng w event key = Undefined)
   \<and> ((\<exists>n\<in>set (reducerNames eng). truthy (reducer_error eng w event n)) \<longrightarrow>
        truthy (ev_error (fst (ESDB_reducer eng event w)))
        \<and> (\<forall>n\<in>set (reducerNames eng).
              get_prop (ev_error (fst (ESDB_reducer eng event w))) (reduce_key n)
                = reducer_error eng w event n)
        \<and> fst ` set (spread (ev_error (fst (ESDB_reducer eng event w))))
            \<subseteq> reduce_key ` {n \<in> set (reducerNames eng). truthy (reducer_error eng w event n)}
        \<and> ev_result (fst (ESDB_reducer eng event w)) = ev_result event)
   \<and> (\<not> (\<exists>n\<in>set (reducerNames eng). truthy (reducer_error eng w event n)) \<longrightarrow>
        ev_error (fst (ESDB_reducer eng event w)) = ev_error event
        \<and> (\<forall>n\<in>set (reducerNames eng).
              map_of (case ev_result (fst (ESDB_reducer eng event w)) of
                        None \<Rightarrow> [] | Some r \<Rightarrow> r) n
                = reducer_entry eng w event n))"
proof -
  define R where
    "R = fst (run_reducers eng (ro_store eng w) event (settle_order eng event) [] [])"
  note rc = reducer_cases [of eng w event, folded R_def]
  have ex: "list_ex (reducer_failed R) (reducerNames eng)
      \<longleftrightarrow> (\<exists>n\<in>set (reducerNames eng). truthy (reducer_error eng w event n))"
    using rc(2) by (auto simp: list_ex_iff)
  have fails: "{n \<in> set (reducerNames eng). reducer_failed R n}
      = {n \<in> set (reducerNames eng). truthy (reducer_error eng w event n)}"
    using rc(2) by auto
  have p1: "call_reducer eng (ro_store eng w) event key = RThrows e \<longrightarrow>
      reducer_entry eng w event key
        = Some \<lparr>out_error = Str (errorToString (stackOf eng) e), out_changes = []\<rparr>"
    by (simp add: reducer_entry_def settle_reducer_def)
  have p2: "call_reducer eng (ro_store eng w) event key = RFalsy
        \<or> call_reducer eng (ro_store eng w) event key = RModel \<longrightarrow>
      reducer_entry eng w event key = None \<and> reducer_error eng w event key = Undefined"
    by (auto simp: reducer_entry_def reducer_error_def settle_reducer_def)
  have p3: "truthy (ev_error (fst (ESDB_reducer eng event w)))
        \<and> (\<forall>n\<in>set (reducerNames eng).
              get_prop (ev_error (fst (ESDB_reducer eng event w))) (reduce_key n)
                = reducer_error eng w event n)
        \<and> fst ` set (spread (ev_error (fst (ESDB_reducer eng event w))))
            \<subseteq> reduce_key ` {n \<in> set (reducerNames eng). truthy (reducer_error eng w event n)}
        \<and> ev_result (fst (ESDB_reducer eng event w)) = ev_result event"
    if a: "\<exists>n\<in>set (reducerNames eng). truthy (reducer_error eng w event n)"
  proof -
    from a ex rc(3) obtain event1 where
      e1: "fst (ESDB_reducer eng event w)
             = set_error (Obj (reduce_errors (reducerNames eng) R)) event1"
      and r1: "ev_result event1 = ev_result event"
      by blast
    have g: "get_prop (Obj (reduce_errors (reducerNames eng) R)) (reduce_key n)
                = reducer_error eng w event n" if "n \<in> set (reducerNames eng)" for n
      using that rc(1) rc(2)
      by (auto simp: reduce_errors_get reducer_error_def reducer_failed_def
            simp del: get_prop.simps split: option.splits)
    show ?thesis
      using g reduce_errors_dom [of "reducerNames eng" R] r1
      by (simp add: e1 fails del: get_prop.simps)
  qed
  have p4: "ev_error (fst (ESDB_reducer eng event w)) = ev_error event
        \<and> (\<forall>n\<in>set (reducerNames eng).
              map_of (case ev_result (fst (ESDB_reducer eng event w)) of
                        None \<Rightarrow> [] | Some r \<Rightarrow> r) n
                = reducer_entry eng w event n)"
    if a: "\<not> (\<exists>n\<in>set (reducerNames eng). truthy (reducer_error eng w event n))"
    using a ex rc(4) rc(1) by simp
  show ?thesis
    using p1 p2 p3 p4 by blast
qed

text \<open>
  Claim C9 does not hold of the code: \<open>_reducer\<close> takes a reducer for failed when the
  \<open>error\<close> of its entry is truthy, and for a reducer that throws that \<open>error\<close> is the text
  \<open>errorToString(thrown)\<close>, which is empty for a thrown value such as an empty array.
  The reducer of \<open>odd\<close> throws one. Alone, it leaves the event without \<open>error\<close> and with
  the entry \<open>{error: ''}\<close> in its \<open>result\<close>, as if it had succeeded. Beside the reducer
  of \<open>foo\<close>, which throws as well, the \<open>error\<close> of the event has \<open>reduce_foo\<close> and no
  \<open>reduce_odd\<close>.
\<close>

theorem C9_thrown_error_lost:
  "call_reducer (example_engine [odd_model]) (ro_store (example_engine [odd_model]) example_world)
      example_event ''odd'' = RThrows (Other [])
   \<and> errorToString (stackOf (example_engine [odd_model])) (Other []) = []
   \<and> fst (ESDB_reducer (example_engine [odd_model]) example_event example_world)
       = Event (Some 1) ''ADD'' ''a'' None
           (Some [(''odd'', \<lparr>out_error = Str [], out_changes = []\<rparr>)]) Undefined None None
   \<and> call_reducer (example_engine [odd_model, foo_model])
        (ro_store (example_engine [odd_model, foo_model]) example_world) bad_event ''odd''
       = RThrows (Other [])
   \<and> call_reducer (example_engine [odd_model, foo_model])
        (ro_store (example_engine [odd_model, foo_model]) example_world) bad_event ''foo''
       = RThrows (Str ''bad event'')
   \<and> fst (ESDB_reducer (example_engine [odd_model, foo_model]) bad_event example_world)
       = Event (Some 1) ''BAD'' ''x'' None None
           (Obj [(''reduce_foo'', Str ''bad event'')]) None None"
  by code_simp

subsection \<open>What the pipeline touches\<close>

lemma touches_tables_refl [simp]: "touches_tables w w"
  unfolding touches_tables_def
  by (rule exI [of _ "contents (rwDb w)"], rule exI [of _ "[]"]) simp

lemma touches_store_refl [simp]: "touches_store w w"
  unfolding touches_store_def
  by (rule exI [of _ "contents (rwDb w)"], rule exI [of _ "user_version (rwDb w)"],
      rule exI [of _ "[]"]) simp

lemma touches_tables_trans:
  assumes "touches_tables w w1" and "touches_tables w1 w2"
  shows "touches_tables w w2"
proof -
  from assms(1) obtain c1 T1 where
    w1: "w1 = w\<lparr>rwDb := (rwDb w)\<lparr>contents := c1\<rparr>, trace := trace w @ T1\<rparr>"
    and f1: "filter is_version_write T1 = []"
    unfolding touches_tables_def by blast
  from assms(2) obtain c2 T2 where
    w2: "w2 = w1\<lparr>rwDb := (rwDb w1)\<lparr>contents := c2\<rparr>, trace := trace w1 @ T2\<rparr>"
    and f2: "filter is_version_write T2 = []"
    unfolding touches_tables_def by blast
  have "w2 = w\<lparr>rwDb := (rwDb w)\<lparr>contents := c2\<rparr>, trace := trace w @ (T1 @ T2)\<rparr>"
    by (simp add: w2 w1)
  moreover have "filter is_version_write (T1 @ T2) = []"
    using f1 f2 by simp
  ultimately show ?thesis
    unfolding touches_tables_def by blast
qed

lemma touches_store_trans:
  assumes "touches_store w w1" and "touches_store w1 w2"
  shows "touches_store w w2"
proof -
  from assms(1) obtain c1 u1 T1 where
    w1: "w1 = w\<lparr>rwDb := (rwDb w)\<lparr>contents := c1, user_version := u1\<rparr>,
                 trace := trace w @ T1\<rparr>"
    unfolding touches_store_def by blast
  from assms(2) obtain c2 u2 T2 where
    w2: "w2 = w1\<lparr>rwDb := (rwDb w1)\<lparr>contents := c2, user_version := u2\<rparr>,
                  trace := trace w1 @ T2\<rparr>"
    unfolding touches_store_def by blast
  have "w2 = w\<lparr>rwDb := (rwDb w)\<lparr>contents := c2, user_version := u2\<rparr>,
                trace := trace w @ (T1 @ T2)\<rparr>"
    by (simp add: w2 w1)
  then show ?thesis
    unfolding touches_store_def by blast
qed

lemma touches_tables_store:
  assumes "touches_tables w w'"
  shows "touches_store w w'"
proof -
  from assms obtain c T where
    "w' = w\<lparr>rwDb := (rwDb w)\<lparr>contents := c\<rparr>, trace := trace w @ T\<rparr>"
    unfolding touches_tables_def by blast
  then have "w' = w\<lparr>rwDb := (rwDb w)\<lparr>contents := c, user_version := user_version (rwDb w)\<rparr>,
                     trace := trace w @ T\<rparr>"
    by simp
  then show ?thesis
    unfolding touches_store_def by blast
qed

lemma touches_tables_trace:
  assumes "filter is_version_write T = []"
  shows "touches_tables w (w\<lparr>trace := trace w @ T\<rparr>)"
  unfolding touches_tables_def
  by (rule exI [of _ "contents (rwDb w)"], rule exI [of _ T]) (simp add: assms)

lemma touches_tables_log:
  assumes "\<not> is_version_write a"
  shows "touches_tables w (log a w)"
  unfolding log_def using touches_tables_trace [of "[a]" w] assms by simp

lemma touches_tables_contents:
  assumes "\<not> is_version_write a"
  shows "touches_tables w (log a (w\<lparr>rwDb := (rwDb w)\<lparr>contents := c\<rparr>\<rparr>))"
  unfolding touches_tables_def log_def
  by (rule exI [of _ c], rule exI [of _ "[a]"]) (simp add: assms)

lemma touches_tablesD:
  assumes "touches_tables w w'"
  shows "version_writes w' = version_writes w"
    and "user_version (rwDb w') = user_version (rwDb w)"
    and "savepoints (rwDb w') = savepoints (rwDb w)"
    and "queue w' = queue w" and "roDb w' = roDb w"
  using assms unfolding touches_tables_def version_writes_def by auto


lemma preprocessor_loop_frame:
  "touches_tables w (snd (snd (preprocessor_loop eng ms orig event w)))"
proof (induction ms arbitrary: orig event w)
  case Nil
  show ?case by simp
next
  case (Cons m ms)
  have l: "touches_tables w (log (Preprocess (name m) event) w)"
    by (rule touches_tables_log) simp
  show ?case
    by (auto simp: Let_def split: pp_result.splits
          intro: l touches_tables_trans [OF l Cons.IH])
qed


lemma ESDB_preprocessor_frame:
  "touches_tables w (snd (snd (ESDB_preprocessor eng event w)))"
  by (simp add: ESDB_preprocessor_def preprocessor_loop_frame)

lemma ESDB_reducer_frame:
  "touches_tables w (snd (snd (ESDB_reducer eng event w)))"
proof -
  have "filter is_version_write
          (map (\<lambda>key. Reduce key event) (filter (has_reducer eng) (reducerNames eng))) = []"
    by (simp add: filter_empty_conv)
  from touches_tables_trace [OF this, of w] show ?thesis
    by (simp add: ESDB_reducer_def Let_def split: prod.splits)
qed

lemma set_all_writable_frame:
  "touches_tables w (set_all_writable eng b w)"
proof -
  have "filter is_version_write
          (map (\<lambda>model. SetWritable (name model) b) (readWriters eng)) = []"
    by (simp add: filter_empty_conv)
  from touches_tables_trace [OF this, of w] show ?thesis
    by (simp add: set_all_writable_def)
qed

lemma apply_entry_frame:
  "touches_tables w (fst (apply_entry eng entry w))"
  by (auto simp: apply_entry_def Let_def split: option.splits prod.splits
        intro: touches_tables_contents)

lemma settleAll_apply_frame:
  "touches_tables w (fst (settleAll r (apply_entry eng) w))"
proof (induction r arbitrary: w)
  case Nil
  show ?case by simp
next
  case (Cons entry r)
  obtain w1 e1 where a: "apply_entry eng entry w = (w1, e1)"
    by (metis prod.exhaust)
  obtain w2 e2 where b: "settleAll r (apply_entry eng) w1 = (w2, e2)"
    by (metis prod.exhaust)
  have "touches_tables w w1"
    using apply_entry_frame [of w eng entry] a by simp
  moreover have "touches_tables w1 w2"
    using Cons.IH [of w1] b by simp
  ultimately have "touches_tables w w2"
    by (rule touches_tables_trans)
  then show ?case
    by (simp add: a b)
qed

lemma apply_changes_frame:
  "touches_tables w (fst (apply_changes eng event w))"
  by (simp add: apply_changes_def settleAll_apply_frame split: option.splits)

lemma derive_one_frame:
  "touches_tables w (snd (fst (derive_one eng model (event, w))))"
  by (auto simp: derive_one_def split: option.splits prod.splits
        intro: touches_tables_contents)

lemma settleAll_derive_frame:
  "touches_tables w (snd (fst (settleAll ms (derive_one eng) (event, w))))"
proof (induction ms arbitrary: event w)
  case Nil
  show ?case by simp
next
  case (Cons m ms)
  obtain event1 w1 e1 where d: "derive_one eng m (event, w) = ((event1, w1), e1)"
    by (metis prod.exhaust)
  obtain event2 w2 e2 where b: "settleAll ms (derive_one eng) (event1, w1) = ((event2, w2), e2)"
    by (metis prod.exhaust)
  have "touches_tables w w1"
    using derive_one_frame [of w eng m event] d by simp
  moreover have "touches_tables w1 w2"
    using Cons.IH [of w1 event1] b by simp
  ultimately have "touches_tables w w2"
    by (rule touches_tables_trans)
  then show ?case
    by (simp add: d b)
qed

lemma rwDb_run_pragma_frame:
  "touches_store w (snd (rwDb_run eng (PRAGMA_user_version x) w))"
proof -
  have a: "touches_store w (log (Run (PRAGMA_user_version y)) w)" for y
    unfolding touches_store_def log_def
    by (rule exI [of _ "contents (rwDb w)"], rule exI [of _ "user_version (rwDb w)"],
        rule exI [of _ "[Run (PRAGMA_user_version y)]"]) simp
  have b: "touches_store w
     (log (Run (PRAGMA_user_version (Some n))) (w\<lparr>rwDb := (rwDb w)\<lparr>user_version := n\<rparr>\<rparr>))" for n
    unfolding touches_store_def log_def
    by (rule exI [of _ "contents (rwDb w)"], rule exI [of _ n],
        rule exI [of _ "[Run (PRAGMA_user_version (Some n))]"]) simp
  show ?thesis
    by (cases x) (auto simp: rwDb_run_def a b split: option.splits)
qed

lemma apply_try_frame:
  "touches_store w (snd (fst (apply_try eng event updateVersion w)))"
  "\<not> updateVersion \<Longrightarrow> touches_tables w (snd (fst (apply_try eng event updateVersion w)))"
proof -
  let ?w1 = "set_all_writable eng True w"
  obtain w2 e2 where a: "apply_changes eng event ?w1 = (w2, e2)"
    by (metis prod.exhaust)
  have t2: "touches_tables w w2"
    using touches_tables_trans [OF set_all_writable_frame [of w eng True]
            apply_changes_frame [of ?w1 eng event]] a by simp
  show "\<not> updateVersion \<Longrightarrow> touches_tables w (snd (fst (apply_try eng event updateVersion w)))"
  proof -
    assume nu: "\<not> updateVersion"
    obtain event4 w4 e4 where d: "settleAll (deriverModels eng) (derive_one eng) (event, w2)
        = ((event4, w4), e4)"
      by (metis prod.exhaust)
    have "touches_tables w2 w4"
      using settleAll_derive_frame [of w2 "deriverModels eng" eng event] d by simp
    with t2 have "touches_tables w w4" by (rule touches_tables_trans)
    with t2 show ?thesis
      by (cases e2) (simp_all add: apply_try_def a nu d)
  qed
  show "touches_store w (snd (fst (apply_try eng event updateVersion w)))"
  proof -
    obtain e3 w3 where v: "(if updateVersion
        then rwDb_run eng (PRAGMA_user_version (ev_v event)) w2 else (None, w2)) = (e3, w3)"
      by (metis prod.exhaust)
    have "touches_store w2 w3"
      using rwDb_run_pragma_frame [of w2 eng "ev_v event"] v
      by (cases updateVersion) auto
    with touches_tables_store [OF t2] have t3: "touches_store w w3"
      by (rule touches_store_trans)
    obtain event4 w4 e4 where d: "settleAll (deriverModels eng) (derive_one eng) (event, w3)
        = ((event4, w4), e4)"
      by (metis prod.exhaust)
    have "touches_tables w3 w4"
      using settleAll_derive_frame [of w3 "deriverModels eng" eng event] d by simp
    with t3 have t4: "touches_store w w4"
      using touches_store_trans touches_tables_store by blast
    show ?thesis
      using t2 t3 t4 touches_tables_store [OF t2]
      by (cases e2; cases e3) (simp_all add: apply_try_def a v d)
  qed
qed

lemma ESDB_applyEvent_frame:
  "touches_store w (snd (ESDB_applyEvent eng event updateVersion w))"
  "\<not> updateVersion \<Longrightarrow> touches_tables w (snd (ESDB_applyEvent eng event updateVersion w))"
proof -
  obtain event1 w1 thrown where a: "apply_try eng event updateVersion w = ((event1, w1), thrown)"
    by (metis prod.exhaust)
  have s: "touches_store w w1"
    using apply_try_frame(1) [of w eng event updateVersion] a by simp
  have f: "touches_tables w1 (set_all_writable eng False w1)"
    by (rule set_all_writable_frame)
  show "touches_store w (snd (ESDB_applyEvent eng event updateVersion w))"
    using touches_store_trans [OF s touches_tables_store [OF f]]
    by (simp add: ESDB_applyEvent_def a)
  show "\<not> updateVersion \<Longrightarrow> touches_tables w (snd (ESDB_applyEvent eng event updateVersion w))"
  proof -
    assume "\<not> updateVersion"
    then have "touches_tables w w1"
      using apply_try_frame(2) [of updateVersion w eng event] a by simp
    from touches_tables_trans [OF this f] show ?thesis
      by (simp add: ESDB_applyEvent_def a)
  qed
qed


lemma handleEvent_frame:
  "touches_store w (snd (snd (ESDB_handleEvent eng origEvent depth w)))
   \<and> (depth > 0 \<longrightarrow> touches_tables w (snd (snd (ESDB_handleEvent eng origEvent depth w))))"
  and handle_subevents_frame: "touches_tables w (snd (handle_subevents eng depth i event w))"
proof (induction eng origEvent depth w and eng depth i event w
       rule: ESDB_handleEvent_handle_subevents.induct)
  case (1 eng origEvent depth w)
  show ?case
  proof (cases "depth > 100")
    case True
    have "snd (snd (ESDB_handleEvent eng origEvent depth w)) = w"
      by (subst ESDB_handleEvent.simps) (simp add: True)
    then show ?thesis
      by simp
  next
    case False
    obtain event1 orig1 w1 where p: "ESDB_preprocessor eng origEvent w = (event1, orig1, w1)"
      by (metis prod.exhaust)
    obtain event2 orig2 w2 where r: "ESDB_reducer eng orig1 w1 = (event2, orig2, w2)"
      by (metis prod.exhaust)
    obtain event3 w3 where a: "ESDB_applyEvent eng event2 (depth = 0) w2 = (event3, w3)"
      by (metis prod.exhaust)
    obtain event4 w4 where h: "handle_subevents eng depth 0 event3 w3 = (event4, w4)"
      by (metis prod.exhaust)
    have t1: "touches_tables w w1"
      using ESDB_preprocessor_frame [of w eng origEvent] p by simp
    have t12: "touches_tables w1 w2"
      using ESDB_reducer_frame [of w1 eng orig1] r by simp
    have t2: "touches_tables w w2"
      using t1 t12 by (rule touches_tables_trans)
    have s23: "touches_store w2 w3"
      using ESDB_applyEvent_frame(1) [of w2 eng event2 "depth = 0"] a by simp
    have s3: "touches_store w w3"
      using touches_tables_store [OF t2] s23 by (rule touches_store_trans)
    have t3: "touches_tables w w3" if "depth > 0"
    proof -
      have "touches_tables w2 w3"
        using ESDB_applyEvent_frame(2) [of "depth = 0" w2 eng event2] a that by simp
      with t2 show ?thesis by (rule touches_tables_trans)
    qed
    have t34: "touches_tables w3 w4"
      if "\<not> truthy (ev_error event1)" "\<not> truthy (ev_error event2)"
         "\<not> truthy (ev_error event3)" "ev_events event3 = Some es" for es
      using "1.IH" [OF False p [symmetric] refl that(1) r [symmetric] refl that(2)
              a [symmetric] that(3) that(4)] h
      by simp
    have res: "snd (snd (ESDB_handleEvent eng origEvent depth w)) =
      (if truthy (ev_error event1) then w1
       else if truthy (ev_error event2) then w2
       else if truthy (ev_error event3) then w3
       else (case ev_events event3 of None \<Rightarrow> w3 | Some es \<Rightarrow> w4))"
      using False
      by (subst ESDB_handleEvent.simps) (simp add: p r a h split: option.splits)
    show ?thesis
    proof (cases "\<not> truthy (ev_error event1) \<and> \<not> truthy (ev_error event2)
        \<and> \<not> truthy (ev_error event3) \<and> ev_events event3 \<noteq> None")
      case True
      then obtain es where es: "ev_events event3 = Some es" by auto
      from True es have t: "touches_tables w3 w4" using t34 by blast
      have w4: "snd (snd (ESDB_handleEvent eng origEvent depth w)) = w4"
        using True es by (simp add: res)
      have "touches_store w w4"
        using s3 touches_tables_store [OF t] by (rule touches_store_trans)
      moreover have "touches_tables w w4" if "depth > 0"
        using t3 [OF that] t by (rule touches_tables_trans)
      ultimately show ?thesis
        by (simp add: w4)
    next
      case False
      then show ?thesis
        using t1 t2 s3 t3 touches_tables_store [OF t1] touches_tables_store [OF t2]
        by (auto simp: res split: option.splits)
    qed
  qed
next
  case (2 eng depth i event w)
  show ?case
  proof (cases "ev_events event")
    case None
    then show ?thesis
      by (subst handle_subevents.simps) simp
  next
    case (Some es)
    show ?thesis
    proof (cases "i < length es")
      case False
      then show ?thesis
        by (subst handle_subevents.simps) (simp add: Some)
    next
      case True
      obtain done0 orig w1 where
        h: "ESDB_handleEvent eng (set_v (ev_v event) (es ! i)) (depth + 1) w = (done0, orig, w1)"
        by (metis prod.exhaust)
      have h': "ESDB_handleEvent eng (set_v (ev_v event) (es ! i)) (Suc depth) w
          = (done0, orig, w1)"
        using h by simp
      have t1: "touches_tables w w1"
        using "2.IH"(1) [OF Some True] h by simp
      show ?thesis
      proof (cases "truthy (ev_error (set_v None done0))")
        case e: True
        have "snd (handle_subevents eng depth i event w) = w1"
          by (subst handle_subevents.simps) (use e in \<open>simp add: Some True h' Let_def\<close>)
        then show ?thesis using t1 by simp
      next
        case e: False
        have t2: "touches_tables w1
           (snd (handle_subevents eng depth (i + 1)
                   (set_events (Some (es[i := set_v None done0])) event) w1))"
          using "2.IH"(2) [OF Some True h [symmetric] refl refl e] .
        have "snd (handle_subevents eng depth i event w) =
            snd (handle_subevents eng depth (i + 1)
                   (set_events (Some (es[i := set_v None done0])) event) w1)"
          by (subst handle_subevents.simps) (use e in \<open>simp add: Some True h' Let_def\<close>)
        then show ?thesis
          using touches_tables_trans [OF t1 t2] by simp
      qed
    qed
  qed
qed

subsection \<open>The write of the version\<close>

lemma apply_entry_trace:
  assumes "apply_entry eng entry w = (w1, None)"
  shows "trace w1 = trace w @ [ApplyChanges (fst entry) (snd entry)]"
  using assms
  by (auto simp: apply_entry_def log_def Let_def split: option.splits prod.splits)

lemma settleAll_apply_trace:
  assumes "snd (settleAll r (apply_entry eng) w) = None"
  shows "trace (fst (settleAll r (apply_entry eng) w))
           = trace w @ map (\<lambda>entry. ApplyChanges (fst entry) (snd entry)) r"
  using assms
proof (induction r arbitrary: w)
  case Nil
  show ?case by simp
next
  case (Cons entry r)
  obtain w1 e1 where a: "apply_entry eng entry w = (w1, e1)"
    by (metis prod.exhaust)
  obtain w2 e2 where b: "settleAll r (apply_entry eng) w1 = (w2, e2)"
    by (metis prod.exhaust)
  from Cons.prems have e: "e1 = None" "e2 = None"
    by (auto simp: a b split: option.splits)
  have "trace w1 = trace w @ [ApplyChanges (fst entry) (snd entry)]"
    using apply_entry_trace a e by blast
  moreover have "trace w2 = trace w1 @ map (\<lambda>entry. ApplyChanges (fst entry) (snd entry)) r"
    using Cons.IH [of w1] b e by simp
  ultimately show ?case
    by (simp add: a b)
qed

lemma apply_changes_trace:
  assumes "snd (apply_changes eng event w) = None"
  shows "trace (fst (apply_changes eng event w))
           = trace w @ map (\<lambda>entry. ApplyChanges (fst entry) (snd entry))
                         (case ev_result event of None \<Rightarrow> [] | Some r \<Rightarrow> r)"
  using assms settleAll_apply_trace [of _ eng w]
  by (auto simp: apply_changes_def split: option.splits if_splits)

lemma derive_one_trace:
  "trace (snd (fst (derive_one eng m (event, w))))
     = trace w @ (if deriver m \<noteq> None then [Derive (name m) event] else [])"
  by (auto simp: derive_one_def log_def split: option.splits prod.splits)

lemma settleAll_derive_trace:
  "\<exists>D. trace (snd (fst (settleAll ms (derive_one eng) (event, w)))) = trace w @ D
       \<and> concat (map derived_by D) = map name (filter (\<lambda>m. deriver m \<noteq> None) ms)
       \<and> length D = length (filter (\<lambda>m. deriver m \<noteq> None) ms)"
proof (induction ms arbitrary: event w)
  case Nil
  show ?case by simp
next
  case (Cons m ms)
  obtain event1 w1 e1 where d: "derive_one eng m (event, w) = ((event1, w1), e1)"
    by (metis prod.exhaust)
  obtain event2 w2 e2 where b: "settleAll ms (derive_one eng) (event1, w1) = ((event2, w2), e2)"
    by (metis prod.exhaust)
  have t1: "trace w1 = trace w @ (if deriver m \<noteq> None then [Derive (name m) event] else [])"
    using derive_one_trace [of eng m event w] d by simp
  from Cons.IH [of event1 w1] b obtain D where
    D: "trace w2 = trace w1 @ D"
       "concat (map derived_by D) = map name (filter (\<lambda>m. deriver m \<noteq> None) ms)"
       "length D = length (filter (\<lambda>m. deriver m \<noteq> None) ms)"
    by auto
  let ?D = "(if deriver m \<noteq> None then [Derive (name m) event] else []) @ D"
  have "trace w2 = trace w @ ?D"
    using t1 D(1) by simp
  moreover have "concat (map derived_by ?D) = map name (filter (\<lambda>m. deriver m \<noteq> None) (m # ms))"
    using D(2) by simp
  moreover have "length ?D = length (filter (\<lambda>m. deriver m \<noteq> None) (m # ms))"
    using D(3) by simp
  ultimately show ?case
    unfolding d b settleAll.simps Let_def prod.case fst_conv snd_conv
    by blast
qed


lemma applyEvent_world:
  "snd (ESDB_applyEvent eng event updateVersion w)
     = set_all_writable eng False (snd (fst (apply_try eng event updateVersion w)))"
  by (simp add: ESDB_applyEvent_def split: prod.splits)

lemma applyEvent_version_order:
  assumes v: "ev_v event = Some n"
    and ne: "\<not> truthy (ev_error event)"
    and ok: "snd (apply_changes eng event (set_all_writable eng True w)) = None"
    and nf: "\<forall>k. fault eng k (OpRun (PRAGMA_user_version (Some n))) = None"
  shows "\<exists>D. trace (snd (ESDB_applyEvent eng event True w)) =
            trace w
            @ map (\<lambda>m. SetWritable (name m) True) (readWriters eng)
            @ map (\<lambda>entry. ApplyChanges (fst entry) (snd entry))
                (case ev_result event of None \<Rightarrow> [] | Some r \<Rightarrow> r)
            @ [Run (PRAGMA_user_version (Some n))]
            @ D
            @ map (\<lambda>m. SetWritable (name m) False) (readWriters eng)
          \<and> concat (map derived_by D) = map name (filter (\<lambda>m. deriver m \<noteq> None) (deriverModels eng))
          \<and> length D = length (filter (\<lambda>m. deriver m \<noteq> None) (deriverModels eng))
          \<and> user_version (rwDb (snd (ESDB_applyEvent eng event True w))) = n"
proof -
  let ?w1 = "set_all_writable eng True w"
  obtain w2 where a: "apply_changes eng event ?w1 = (w2, None)"
    using ok by (metis prod.collapse)
  have tr2: "trace w2 = trace w
            @ map (\<lambda>m. SetWritable (name m) True) (readWriters eng)
            @ map (\<lambda>entry. ApplyChanges (fst entry) (snd entry))
                (case ev_result event of None \<Rightarrow> [] | Some r \<Rightarrow> r)"
    using apply_changes_trace [OF ok] a by (simp add: set_all_writable_def)
  let ?w3 = "log (Run (PRAGMA_user_version (Some n))) (w2\<lparr>rwDb := (rwDb w2)\<lparr>user_version := n\<rparr>\<rparr>)"
  have run: "rwDb_run eng (PRAGMA_user_version (ev_v event)) w2 = (None, ?w3)"
    using nf by (simp add: rwDb_run_def faulty_def v)
  have tr3: "trace ?w3 = trace w2 @ [Run (PRAGMA_user_version (Some n))]"
    and uv3: "user_version (rwDb ?w3) = n"
    by (simp_all add: log_def)
  obtain event4 w4 e4 where d: "settleAll (deriverModels eng) (derive_one eng) (event, ?w3)
        = ((event4, w4), e4)"
    by (metis prod.exhaust)
  from settleAll_derive_trace [of "deriverModels eng" eng event ?w3] d obtain D where
    D: "trace w4 = trace ?w3 @ D"
       "concat (map derived_by D) = map name (filter (\<lambda>m. deriver m \<noteq> None) (deriverModels eng))"
       "length D = length (filter (\<lambda>m. deriver m \<noteq> None) (deriverModels eng))"
    by auto
  have uv4: "user_version (rwDb w4) = n"
    using touches_tablesD(2) [OF settleAll_derive_frame [of ?w3 "deriverModels eng" eng event]] d uv3
    by simp
  have tried: "snd (fst (apply_try eng event True w)) =
      (if deriverModels eng \<noteq> [] then w4 else ?w3)"
    using ne by (simp add: apply_try_def a run d)
  show ?thesis
  proof (cases "deriverModels eng = []")
    case True
    have "trace (snd (ESDB_applyEvent eng event True w)) =
            trace w
            @ map (\<lambda>m. SetWritable (name m) True) (readWriters eng)
            @ map (\<lambda>entry. ApplyChanges (fst entry) (snd entry))
                (case ev_result event of None \<Rightarrow> [] | Some r \<Rightarrow> r)
            @ [Run (PRAGMA_user_version (Some n))]
            @ []
            @ map (\<lambda>m. SetWritable (name m) False) (readWriters eng)"
      using True by (simp add: applyEvent_world tried set_all_writable_def tr3 tr2)
    moreover have "user_version (rwDb (snd (ESDB_applyEvent eng event True w))) = n"
      using True by (simp add: applyEvent_world tried set_all_writable_def log_def)
    ultimately show ?thesis
      using True by (intro exI [of _ "[]"]) simp
  next
    case False
    have "trace (snd (ESDB_applyEvent eng event True w)) =
            trace w
            @ map (\<lambda>m. SetWritable (name m) True) (readWriters eng)
            @ map (\<lambda>entry. ApplyChanges (fst entry) (snd entry))
                (case ev_result event of None \<Rightarrow> [] | Some r \<Rightarrow> r)
            @ [Run (PRAGMA_user_version (Some n))]
            @ D
            @ map (\<lambda>m. SetWritable (name m) False) (readWriters eng)"
      using False by (simp add: applyEvent_world tried set_all_writable_def D(1) tr3 tr2)
    moreover have "user_version (rwDb (snd (ESDB_applyEvent eng event True w))) = n"
      using False uv4 by (simp add: applyEvent_world tried set_all_writable_def)
    ultimately show ?thesis
      using D(2,3) by (intro exI [of _ D]) simp
  qed
qed

lemma handleEvent_top_level:
  assumes "ESDB_preprocessor eng origEvent w0 = (event1, orig1, w1)"
    and "\<not> truthy (ev_error event1)"
    and "ESDB_reducer eng orig1 w1 = (event2, orig2, w2)"
    and "\<not> truthy (ev_error event2)"
  shows "touches_tables (snd (ESDB_applyEvent eng event2 True w2))
           (snd (snd (ESDB_handleEvent eng origEvent 0 w0)))"
proof -
  obtain event3 w3 where a: "ESDB_applyEvent eng event2 True w2 = (event3, w3)"
    by (metis prod.exhaust)
  obtain event4 w4 where h: "handle_subevents eng 0 0 event3 w3 = (event4, w4)"
    by (metis prod.exhaust)
  have res: "snd (snd (ESDB_handleEvent eng origEvent 0 w0)) =
      (if truthy (ev_error event3) then w3
       else (case ev_events event3 of None \<Rightarrow> w3 | Some es \<Rightarrow> w4))"
    by (subst ESDB_handleEvent.simps) (use assms in \<open>simp add: a h split: option.splits\<close>)
  have "touches_tables w3 w4"
    using handle_subevents_frame [of w3 eng 0 0 event3] h by simp
  then show ?thesis
    by (simp add: res a split: option.splits)
qed

text \<open>
  Claim C3. Take a top-level event (depth 0) that comes out of the preprocessors and the
  reducers without error, with a \<open>v\<close>, and let every \<open>applyChanges\<close> succeed and the
  statement that writes the version not fail. Then what \<open>_handleEvent\<close> does after the
  reducers is, in this order: the models are made writable, \<open>applyChanges\<close> is called for
  every entry of the result, \<open>user_version\<close> is set to the \<open>v\<close> of the event, the derivers
  run, the models are made read-only, and the sub-events are handled, which does not
  write \<open>user_version\<close>; \<open>user_version\<close> is that \<open>v\<close> afterwards. An event handled at a
  depth above 0, with all its sub-events, never writes \<open>user_version\<close>.
\<close>

theorem C3_version_write:
  "(ESDB_preprocessor eng origEvent w0 = (event1, orig1, w1) \<and> \<not> truthy (ev_error event1)
      \<and> ESDB_reducer eng orig1 w1 = (event, orig2, w) \<and> \<not> truthy (ev_error event)
      \<and> ev_v event = Some n
      \<and> snd (apply_changes eng event (set_all_writable eng True w)) = None
      \<and> (\<forall>k. fault eng k (OpRun (PRAGMA_user_version (Some n))) = None)
    \<longrightarrow> (\<exists>D S. trace (snd (snd (ESDB_handleEvent eng origEvent 0 w0))) =
            trace w
            @ map (\<lambda>m. SetWritable (name m) True) (readWriters eng)
            @ map (\<lambda>entry. ApplyChanges (fst entry) (snd entry))
                (case ev_result event of None \<Rightarrow> [] | Some r \<Rightarrow> r)
            @ [Run (PRAGMA_user_version (Some n))]
            @ D
            @ map (\<lambda>m. SetWritable (name m) False) (readWriters eng)
            @ S
          \<and> concat (map derived_by D)
              = map name (filter (\<lambda>m. deriver m \<noteq> None) (deriverModels eng))
          \<and> length D = length (filter (\<lambda>m. deriver m \<noteq> None) (deriverModels eng))
          \<and> filter is_version_write S = []
          \<and> user_version (rwDb (snd (snd (ESDB_handleEvent eng origEvent 0 w0)))) = n))
   \<and> (depth > 0
    \<longrightarrow> version_writes (snd (snd (ESDB_handleEvent eng origEvent depth w'))) = version_writes w'
        \<and> user_version (rwDb (snd (snd (ESDB_handleEvent eng origEvent depth w'))))
            = user_version (rwDb w'))"
proof -
  let ?wf = "snd (snd (ESDB_handleEvent eng origEvent 0 w0))"
  let ?w3 = "snd (ESDB_applyEvent eng event True w)"
  have top: "\<exists>D S. trace ?wf =
            trace w
            @ map (\<lambda>m. SetWritable (name m) True) (readWriters eng)
            @ map (\<lambda>entry. ApplyChanges (fst entry) (snd entry))
                (case ev_result event of None \<Rightarrow> [] | Some r \<Rightarrow> r)
            @ [Run (PRAGMA_user_version (Some n))]
            @ D
            @ map (\<lambda>m. SetWritable (name m) False) (readWriters eng)
            @ S
          \<and> concat (map derived_by D)
              = map name (filter (\<lambda>m. deriver m \<noteq> None) (deriverModels eng))
          \<and> length D = length (filter (\<lambda>m. deriver m \<noteq> None) (deriverModels eng))
          \<and> filter is_version_write S = []
          \<and> user_version (rwDb ?wf) = n"
    if p: "ESDB_preprocessor eng origEvent w0 = (event1, orig1, w1)"
      and ne1: "\<not> truthy (ev_error event1)"
      and r: "ESDB_reducer eng orig1 w1 = (event, orig2, w)"
      and ne: "\<not> truthy (ev_error event)"
      and v: "ev_v event = Some n"
      and ok: "snd (apply_changes eng event (set_all_writable eng True w)) = None"
      and nf: "\<forall>k. fault eng k (OpRun (PRAGMA_user_version (Some n))) = None"
  proof -
    from applyEvent_version_order [OF v ne ok nf] obtain D where
      D: "trace ?w3 =
            trace w
            @ map (\<lambda>m. SetWritable (name m) True) (readWriters eng)
            @ map (\<lambda>entry. ApplyChanges (fst entry) (snd entry))
                (case ev_result event of None \<Rightarrow> [] | Some r \<Rightarrow> r)
            @ [Run (PRAGMA_user_version (Some n))]
            @ D
            @ map (\<lambda>m. SetWritable (name m) False) (readWriters eng)"
        "concat (map derived_by D)
              = map name (filter (\<lambda>m. deriver m \<noteq> None) (deriverModels eng))"
        "length D = length (filter (\<lambda>m. deriver m \<noteq> None) (deriverModels eng))"
        "user_version (rwDb ?w3) = n"
      by blast
    from handleEvent_top_level [OF p ne1 r ne] obtain c S where
      wf: "?wf = ?w3\<lparr>rwDb := (rwDb ?w3)\<lparr>contents := c\<rparr>, trace := trace ?w3 @ S\<rparr>"
      and S: "filter is_version_write S = []"
      unfolding touches_tables_def by blast
    have "trace ?wf = trace ?w3 @ S"
      by (subst wf) simp
    moreover have "user_version (rwDb ?wf) = user_version (rwDb ?w3)"
      by (subst wf) simp
    ultimately have "trace ?wf =
            trace w
            @ map (\<lambda>m. SetWritable (name m) True) (readWriters eng)
            @ map (\<lambda>entry. ApplyChanges (fst entry) (snd entry))
                (case ev_result event of None \<Rightarrow> [] | Some r \<Rightarrow> r)
            @ [Run (PRAGMA_user_version (Some n))]
            @ D
            @ map (\<lambda>m. SetWritable (name m) False) (readWriters eng)
            @ S"
      and "user_version (rwDb ?wf) = n"
      using D(1,4) by simp_all
    with D(2,3) S show ?thesis
      by blast
  qed
  have sub: "version_writes (snd (snd (ESDB_handleEvent eng origEvent depth w'))) = version_writes w'
        \<and> user_version (rwDb (snd (snd (ESDB_handleEvent eng origEvent depth w'))))
            = user_version (rwDb w')"
    if "depth > 0"
    using that touches_tablesD(1,2) [of w' "snd (snd (ESDB_handleEvent eng origEvent depth w'))"]
        handleEvent_frame(1) [of w' eng origEvent depth]
    by blast
  show ?thesis
    using top sub by blast
qed

theorem C3_version_write_witness:
  "fst (ESDB_preprocessor (example_engine [foo_model, cache_model]) example_event example_world)
     = example_event
   \<and> \<not> truthy (ev_error example_event)
   \<and> fst (ESDB_reducer (example_engine [foo_model, cache_model]) example_event example_world)
       = reduced_event
   \<and> \<not> truthy (ev_error reduced_event) \<and> ev_v reduced_event = Some 1
   \<and> (\<forall>k. fault (example_engine [foo_model, cache_model]) k
             (OpRun (PRAGMA_user_version (Some 1))) = None)
   \<and> trace (snd (snd (ESDB_handleEvent (example_engine [foo_model, cache_model])
        example_event 0 example_world)))
       = [Reduce ''foo'' example_event,
          SetWritable ''foo'' True,
          ApplyChanges ''foo'' \<lparr>out_error = Undefined, out_changes = ''a''\<rparr>,
          Run (PRAGMA_user_version (Some 1)),
          Derive ''cache'' reduced_event,
          SetWritable ''foo'' False]
   \<and> user_version (rwDb (snd (snd (ESDB_handleEvent (example_engine [foo_model, cache_model])
        example_event 0 example_world)))) = 1
   \<and> (0::nat) < 1
   \<and> version_writes (snd (snd (ESDB_handleEvent (example_engine [foo_model, cache_model])
        example_event 1 example_world))) = []
   \<and> user_version (rwDb (snd (snd (ESDB_handleEvent (example_engine [foo_model, cache_model])
        example_event 1 example_world)))) = 0"
proof -
  let ?E = "example_engine [foo_model, cache_model]"
  let ?P = "ESDB_preprocessor ?E example_event example_world"
  let ?R = "ESDB_reducer ?E example_event (snd (snd ?P))"
  have p: "fst ?P = example_event" "fst (snd ?P) = example_event"
    by code_simp+
  have pw: "snd (snd ?P) = example_world"
    by (simp add: ESDB_preprocessor_def example_engine_def foo_model_def cache_model_def)
  have r: "fst ?R = reduced_event"
    by code_simp
  have h: "ev_v reduced_event = Some 1" "\<not> truthy (ev_error reduced_event)"
    "\<not> truthy (ev_error example_event)"
    by (simp_all add: reduced_event_def example_event_def)
  have ok: "snd (apply_changes ?E reduced_event (set_all_writable ?E True (snd (snd ?R)))) = None"
    by code_simp
  have nf: "\<forall>k. fault ?E k (OpRun (PRAGMA_user_version (Some 1))) = None"
    by (simp add: example_engine_def no_fault_def)
  have tr: "trace (snd (snd (ESDB_handleEvent ?E example_event 0 example_world)))
       = [Reduce ''foo'' example_event,
          SetWritable ''foo'' True,
          ApplyChanges ''foo'' \<lparr>out_error = Undefined, out_changes = ''a''\<rparr>,
          Run (PRAGMA_user_version (Some 1)),
          Derive ''cache'' reduced_event,
          SetWritable ''foo'' False]"
    by code_simp
  have w0: "version_writes example_world = []" "user_version (rwDb example_world) = 0"
    by (simp_all add: version_writes_def example_world_def)
  have P: "?P = (example_event, example_event, snd (snd ?P))"
    using p by (metis prod.collapse)
  have R: "?R = (reduced_event, fst (snd ?R), snd (snd ?R))"
    using r by (metis prod.collapse)
  have a: "user_version (rwDb (snd (snd (ESDB_handleEvent ?E example_event 0 example_world)))) = 1"
    using C3_version_write [of ?E example_event example_world example_event example_event
        "snd (snd ?P)" reduced_event "fst (snd ?R)" "snd (snd ?R)" 1 0 example_world]
      P R h ok nf
    by blast
  have b: "version_writes (snd (snd (ESDB_handleEvent ?E example_event 1 example_world))) = []
    \<and> user_version (rwDb (snd (snd (ESDB_handleEvent ?E example_event 1 example_world)))) = 0"
    using C3_version_write [of ?E example_event example_world example_event example_event
        "snd (snd ?P)" reduced_event "fst (snd ?R)" "snd (snd ?R)" 1 1 example_world] w0
    by simp
  show ?thesis
    using p(1) r h nf tr a b by (simp add: pw)
qed

subsection \<open>Sub-events\<close>

lemma set_events_same: "ev_events e = x \<Longrightarrow> set_events x e = e"
  by (cases e) auto

lemma set_events_twice [simp]: "set_events x (set_events y e) = set_events x e"
  by (cases e) simp

lemma move_result_fields [simp]:
  "ev_error (move_result e) = ev_error e" "ev_v (move_result e) = ev_v e"
  "ev_result (move_result e) = None"
  by (simp_all add: move_result_def split: option.splits)

lemma handle_subevents_refines:
  assumes "ev_events event = Some (pre @ rest)" and "length pre = i"
  shows "handle_subevents eng depth i event w =
    (case process_subevents eng depth (ev_v event) rest w of
       (records, failed, w') \<Rightarrow>
         ((case failed of
             None \<Rightarrow> set_events (Some (pre @ records)) event
           | Some k \<Rightarrow>
               set_error
                 (Obj [(''_handle'', Str (''subevent '' @ show_nat (i + k) @ '' failed''))])
                 (set_events (Some (pre @ records)) event)),
          w'))"
  using assms
proof (induction rest arbitrary: pre i event w)
  case Nil
  then show ?case
    by (subst handle_subevents.simps) (simp add: set_events_same)
next
  case (Cons s rest)
  obtain done0 orig w1 where
    h: "ESDB_handleEvent eng (set_v (ev_v event) s) (Suc depth) w = (done0, orig, w1)"
    by (metis prod.exhaust)
  have i: "i < length (pre @ s # rest)" "(pre @ s # rest) ! i = s"
    using Cons.prems(2) by auto
  have upd: "(pre @ s # rest)[i := x] = pre @ x # rest" for x
    using Cons.prems(2) by (simp add: list_update_append)
  show ?case
  proof (cases "truthy (ev_error done0)")
    case True
    then show ?thesis
      by (subst handle_subevents.simps) (simp add: Cons.prems(1) Cons.prems(2) i(2) upd h Let_def)
  next
    case False
    let ?event = "set_events (Some (pre @ set_v None done0 # rest)) event"
    have ih: "handle_subevents eng depth (Suc i) ?event w1 =
      (case process_subevents eng depth (ev_v ?event) rest w1 of
       (records, failed, w') \<Rightarrow>
         ((case failed of
             None \<Rightarrow> set_events (Some ((pre @ [set_v None done0]) @ records)) ?event
           | Some k \<Rightarrow>
               set_error
                 (Obj [(''_handle'', Str (''subevent '' @ show_nat (Suc i + k) @ '' failed''))])
                 (set_events (Some ((pre @ [set_v None done0]) @ records)) ?event)),
          w'))"
      by (rule Cons.IH) (simp_all add: Cons.prems(2))
    obtain records failed w2 where
      p: "process_subevents eng depth (ev_v event) rest w1 = (records, failed, w2)"
      by (metis prod.exhaust)
    have "handle_subevents eng depth i event w = handle_subevents eng depth (Suc i) ?event w1"
      using False
      by (subst handle_subevents.simps) (simp add: Cons.prems(1) Cons.prems(2) i(2) upd h Let_def)
    then show ?thesis
      using False by (cases failed) (simp_all add: ih h p Let_def)
  qed
qed

lemma process_subevents_shape:
  assumes "process_subevents eng depth v es w = (records, failed, w')"
  shows "length records = length es
    \<and> (case failed of
         None \<Rightarrow> (\<forall>r\<in>set records. \<not> truthy (ev_error r) \<and> ev_v r = None)
       | Some k \<Rightarrow>
           k < length es \<and> truthy (ev_error (records ! k)) \<and> ev_result (records ! k) = None
           \<and> (\<forall>j<k. \<not> truthy (ev_error (records ! j)))
           \<and> (\<forall>j\<le>k. ev_v (records ! j) = None)
           \<and> drop (Suc k) records = drop (Suc k) es)"
  using assms
proof (induction es arbitrary: w records failed w')
  case Nil
  then show ?case by simp
next
  case (Cons s es)
  obtain done0 orig w1 where
    h: "ESDB_handleEvent eng (set_v v s) (Suc depth) w = (done0, orig, w1)"
    by (metis prod.exhaust)
  show ?case
  proof (cases "truthy (ev_error done0)")
    case True
    with Cons.prems show ?thesis
      by (auto simp: h Let_def)
  next
    case False
    obtain records1 failed1 w2 where
      p: "process_subevents eng depth v es w1 = (records1, failed1, w2)"
      by (metis prod.exhaust)
    from Cons.prems False have r: "records = set_v None done0 # records1"
      "failed = map_option Suc failed1"
      by (simp_all add: h p Let_def)
    note ih = Cons.IH [OF p]
    show ?thesis
    proof (cases failed1)
      case None
      with ih False show ?thesis by (simp add: r)
    next
      case (Some k)
      with ih have k: "k < length es" "truthy (ev_error (records1 ! k))"
        "ev_result (records1 ! k) = None"
        "\<forall>j<k. \<not> truthy (ev_error (records1 ! j))"
        "\<forall>j\<le>k. ev_v (records1 ! j) = None"
        "drop (Suc k) records1 = drop (Suc k) es" "length records1 = length es"
        by simp_all
      have "\<forall>j<Suc k. \<not> truthy (ev_error ((set_v None done0 # records1) ! j))"
        using k(4) False by (auto simp: nth_Cons split: nat.splits)
      moreover have "\<forall>j\<le>Suc k. ev_v ((set_v None done0 # records1) ! j) = None"
        using k(5) by (auto simp: nth_Cons split: nat.splits)
      ultimately show ?thesis
        using k by (simp add: r Some)
    qed
  qed
qed

lemma handleEvent_after_apply:
  assumes "depth \<le> 100"
    and "ESDB_preprocessor eng origEvent w0 = (event1, orig1, w1)" and "\<not> truthy (ev_error event1)"
    and "ESDB_reducer eng orig1 w1 = (event2, orig2, w2)" and "\<not> truthy (ev_error event2)"
    and "ESDB_applyEvent eng event2 (depth = 0) w2 = (event, w)"
    and "ev_events event = Some es"
  shows "(fst (ESDB_handleEvent eng origEvent depth w0),
          snd (snd (ESDB_handleEvent eng origEvent depth w0)))
         = (if truthy (ev_error event) then (event, w)
            else handle_subevents eng depth 0 event w)"
proof -
  have e: "ESDB_handleEvent eng origEvent depth w0 =
      (if truthy (ev_error event) then (event, sync_events orig2 event, w)
       else (case handle_subevents eng depth 0 event w of
               (event4, w4) \<Rightarrow> (event4, sync_events orig2 event4, w4)))"
    by (subst ESDB_handleEvent.simps) (use assms in \<open>simp\<close>)
  show ?thesis
    by (simp add: e split: prod.splits)
qed

text \<open>
  Claim C6. The loop over the \<open>events\<close> of an event does what the specification says:
  the sub-events are handled one after the other in order, each one level deeper and with
  the \<open>v\<close> of the parent, and each is stored without \<open>v\<close>. When one ends in error, say
  the one at index \<open>k\<close>, the error of the parent becomes
  \<open>{_handle: "subevent k failed"}\<close>, no sub-event before it has an error, and those
  after it are left as they were, unhandled. In \<open>_handleEvent\<close> (at a depth up to 100,
  after preprocessing and reducing without error) this loop runs on the event that the
  apply phase returns when that event has no error; when it has one, no sub-event is
  handled.
\<close>

theorem C6_subevents:
  assumes "ev_events event = Some es"
  shows "\<exists>records failed w'.
      process_subevents eng depth (ev_v event) es w = (records, failed, w')
    \<and> handle_subevents eng depth 0 event w =
        ((case failed of
            None \<Rightarrow> set_events (Some records) event
          | Some k \<Rightarrow>
              set_error (Obj [(''_handle'', Str (''subevent '' @ show_nat k @ '' failed''))])
                (set_events (Some records) event)),
         w')
    \<and> length records = length es
    \<and> (case failed of
         None \<Rightarrow> (\<forall>r\<in>set records. \<not> truthy (ev_error r) \<and> ev_v r = None)
       | Some k \<Rightarrow>
           k < length es \<and> truthy (ev_error (records ! k)) \<and> ev_result (records ! k) = None
           \<and> (\<forall>j<k. \<not> truthy (ev_error (records ! j)))
           \<and> (\<forall>j\<le>k. ev_v (records ! j) = None)
           \<and> drop (Suc k) records = drop (Suc k) es)
    \<and> (depth \<le> 100
        \<and> ESDB_preprocessor eng origEvent w0 = (event1, orig1, w1) \<and> \<not> truthy (ev_error event1)
        \<and> ESDB_reducer eng orig1 w1 = (event2, orig2, w2) \<and> \<not> truthy (ev_error event2)
        \<and> ESDB_applyEvent eng event2 (depth = 0) w2 = (event, w)
       \<longrightarrow> (fst (ESDB_handleEvent eng origEvent depth w0),
            snd (snd (ESDB_handleEvent eng origEvent depth w0)))
           = (if truthy (ev_error event) then (event, w)
              else handle_subevents eng depth 0 event w))"
proof -
  obtain records failed w' where
    p: "process_subevents eng depth (ev_v event) es w = (records, failed, w')"
    by (metis prod.exhaust)
  have r: "handle_subevents eng depth 0 event w =
        ((case failed of
            None \<Rightarrow> set_events (Some records) event
          | Some k \<Rightarrow>
              set_error (Obj [(''_handle'', Str (''subevent '' @ show_nat k @ '' failed''))])
                (set_events (Some records) event)),
         w')"
    using handle_subevents_refines [of event "[]" es 0 eng depth w] assms
    by (cases failed) (simp_all add: p)
  show ?thesis
    using p r process_subevents_shape [OF p]
      handleEvent_after_apply [of depth eng origEvent w0 event1 orig1 w1 event2 orig2 w2
        event w es] assms
    by blast
qed


theorem C6_subevents_witness:
  "ev_events parent_event
     = Some [sub_event ''ADD'' ''y'', sub_event ''BAD'' ''x'', sub_event ''ADD'' ''z'']
   \<and> fst (ESDB_preprocessor (example_engine [foo_model]) parent_queued example_world)
       = parent_queued
   \<and> fst (ESDB_reducer (example_engine [foo_model]) parent_queued example_world)
       = parent_event
   \<and> \<not> truthy (ev_error parent_event)
   \<and> fst (ESDB_handleEvent (example_engine [foo_model]) parent_queued 0 example_world)
       = Event (Some 7) ''PARENT'' ''p'' None
           (Some [(''foo'', \<lparr>out_error = Undefined, out_changes = ''p''\<rparr>)])
           (Obj [(''_handle'', Str ''subevent 1 failed'')]) None
           (Some [Event None ''ADD'' ''y'' None
                    (Some [(''foo'', \<lparr>out_error = Undefined, out_changes = ''y''\<rparr>)])
                    Undefined None None,
                  Event None ''BAD'' ''x'' None None
                    (Obj [(''reduce_foo'', Str ''bad event'')]) None None,
                  Event None ''ADD'' ''z'' None None Undefined None None])"
proof -
  let ?E = "example_engine [foo_model]"
  let ?P = "ESDB_preprocessor ?E parent_queued example_world"
  let ?R = "ESDB_reducer ?E parent_queued (snd (snd ?P))"
  let ?A = "ESDB_applyEvent ?E parent_event (0 = (0::nat)) (snd (snd ?R))"
  have es: "ev_events parent_event
     = Some [sub_event ''ADD'' ''y'', sub_event ''BAD'' ''x'', sub_event ''ADD'' ''z'']"
    by (simp add: parent_event_def)
  have p: "fst ?P = parent_queued" "fst (snd ?P) = parent_queued"
    by code_simp+
  have pw: "snd (snd ?P) = example_world"
    by (simp add: ESDB_preprocessor_def example_engine_def foo_model_def)
  have r: "fst ?R = parent_event" "fst (snd ?R) = parent_queued"
    by code_simp+
  have a: "fst ?A = parent_event"
    by code_simp
  have ne: "\<not> truthy (ev_error parent_queued)" "\<not> truthy (ev_error parent_event)"
    by (simp_all add: parent_queued_def parent_event_def)
  have P: "?P = (parent_queued, parent_queued, snd (snd ?P))"
    using p by (metis prod.collapse)
  have R: "?R = (parent_event, parent_queued, snd (snd ?R))"
    using r by (metis prod.collapse)
  have A: "?A = (parent_event, snd ?A)"
    using a by (metis prod.collapse)
  have sub: "fst (handle_subevents ?E 0 0 parent_event (snd ?A))
       = Event (Some 7) ''PARENT'' ''p'' None
           (Some [(''foo'', \<lparr>out_error = Undefined, out_changes = ''p''\<rparr>)])
           (Obj [(''_handle'', Str ''subevent 1 failed'')]) None
           (Some [Event None ''ADD'' ''y'' None
                    (Some [(''foo'', \<lparr>out_error = Undefined, out_changes = ''y''\<rparr>)])
                    Undefined None None,
                  Event None ''BAD'' ''x'' None None
                    (Obj [(''reduce_foo'', Str ''bad event'')]) None None,
                  Event None ''ADD'' ''z'' None None Undefined None None])"
    by code_simp
  have "(fst (ESDB_handleEvent ?E parent_queued 0 example_world),
         snd (snd (ESDB_handleEvent ?E parent_queued 0 example_world)))
        = handle_subevents ?E 0 0 parent_event (snd ?A)"
    using C6_subevents [OF es, of ?E 0 "snd ?A" parent_queued example_world
        parent_queued parent_queued "snd (snd ?P)" parent_event parent_queued "snd (snd ?R)"]
      P R A ne
    by auto
  then have "fst (ESDB_handleEvent ?E parent_queued 0 example_world)
      = fst (handle_subevents ?E 0 0 parent_event (snd ?A))"
    by (metis fst_conv)
  then show ?thesis
    using es p(1) r(1) ne(2) sub by (simp add: pw)
qed


subsection \<open>The transaction around an event\<close>









end
